theory Spec2Isabelle
  imports Main
begin

section \<open>Python values, strings and exceptions\<close>

text \<open>
  The anonymity checker (helper/anonymousChecker.py) and the deduplicating fetcher
  (fetcher/freeproxyAdapter.py) work on what \<open>requests\<close> hands them: a decoded JSON
  body, or an exception. A decoded body is a Python value; the checker calls \<open>.get\<close>,
  \<open>.split\<close> and \<open>in\<close> on it without checking its type, so the type errors of these
  calls are branches of the model.

  A Python \<open>str\<close> is modelled as a \<open>string\<close> whose characters are single code points
  (the range below 256). \<open>PFloat m e\<close> is the finite float \<open>m * 2 ^ e\<close>; of a float the
  code only ever uses its type and its truth value.
\<close>

datatype pyval =
    PNone
  | PBool bool
  | PInt int
  | PFloat int int
  | PStr string
  | PList "pyval list"
  | PDict "(string \<times> pyval) list"

text \<open>
  The three exception classes that \<open>_check_anonymous\<close> tells apart, each with
  \<open>str(e)\<close>: \<open>requests.exceptions.Timeout\<close>, \<open>requests.exceptions.ProxyError\<close>, and
  every other \<open>Exception\<close> (HTTP status errors, undecodable JSON, AttributeError,
  TypeError).
\<close>

datatype exn = Timeout string | ProxyError string | OtherError string

fun type_name :: "pyval \<Rightarrow> string" where
  "type_name PNone = ''NoneType''"
| "type_name (PBool _) = ''bool''"
| "type_name (PInt _) = ''int''"
| "type_name (PFloat _ _) = ''float''"
| "type_name (PStr _) = ''str''"
| "type_name (PList _) = ''list''"
| "type_name (PDict _) = ''dict''"

definition AttributeError :: "pyval \<Rightarrow> string \<Rightarrow> exn" where
  "AttributeError v attr =
     OtherError ([CHR 39] @ type_name v @ [CHR 39] @ '' object has no attribute ''
                 @ [CHR 39] @ attr @ [CHR 39])"

definition TypeError_not_iterable :: "pyval \<Rightarrow> exn" where
  "TypeError_not_iterable v =
     OtherError (''argument of type '' @ [CHR 39] @ type_name v @ [CHR 39]
                 @ '' is not iterable'')"

text \<open>Truth value of a Python object, as \<open>if x\<close> and \<open>x and y\<close> test it.\<close>

fun truthy :: "pyval \<Rightarrow> bool" where
  "truthy PNone = False"
| "truthy (PBool b) = b"
| "truthy (PInt i) = (i \<noteq> 0)"
| "truthy (PFloat m e) = (m \<noteq> 0)"
| "truthy (PStr s) = (s \<noteq> [])"
| "truthy (PList xs) = (xs \<noteq> [])"
| "truthy (PDict kvs) = (kvs \<noteq> [])"

text \<open>
  \<open>real_ip\<close> is \<open>None\<close> or a \<open>str\<close>; \<open>if real_ip\<close> holds for a non-empty string only.
\<close>

fun known :: "string option \<Rightarrow> bool" where
  "known None = False"
| "known (Some s) = (s \<noteq> [])"

text \<open>\<open>s.split(c)\<close> for a one-character separator: never an empty list.\<close>

fun split_chr :: "char \<Rightarrow> string \<Rightarrow> string list" where
  "split_chr c [] = [[]]"
| "split_chr c (x # xs) =
     (if x = c then [] # split_chr c xs
      else (let r = split_chr c xs in (x # hd r) # tl r))"

text \<open>\<open>str.isspace\<close> on one character, for the code points below 256.\<close>

definition is_space :: "char \<Rightarrow> bool" where
  "is_space c = (of_char c \<in> {9, 10, 11, 12, 13, 28, 29, 30, 31, 32, 133, 160 :: nat})"

definition strip :: "string \<Rightarrow> string" where
  "strip s = rev (dropWhile is_space (rev (dropWhile is_space s)))"

fun starts_with :: "string \<Rightarrow> string \<Rightarrow> bool" where
  "starts_with _ [] = True"
| "starts_with [] (y # ys) = False"
| "starts_with (x # xs) (y # ys) = (x = y \<and> starts_with xs ys)"

text \<open>\<open>needle in hay\<close> on two strings: \<open>needle\<close> is a contiguous part of \<open>hay\<close>.\<close>

fun str_in :: "string \<Rightarrow> string \<Rightarrow> bool" where
  "str_in needle [] = (needle = [])"
| "str_in needle (h # hs) = (starts_with (h # hs) needle \<or> str_in needle hs)"

text \<open>
  \<open>s in v\<close> for a string \<open>s\<close> and any value \<open>v\<close>: substring test on a \<open>str\<close>, element
  test on a \<open>list\<close>, key test on a \<open>dict\<close>, TypeError otherwise.
\<close>

fun py_in :: "string \<Rightarrow> pyval \<Rightarrow> exn + bool" where
  "py_in s (PStr t) = Inr (str_in s t)"
| "py_in s (PList xs) = Inr (PStr s \<in> set xs)"
| "py_in s (PDict kvs) = Inr (s \<in> set (map fst kvs))"
| "py_in s v = Inl (TypeError_not_iterable v)"

text \<open>\<open>v.get(k, d)\<close>: defined on a \<open>dict\<close> only.\<close>

fun py_get :: "pyval \<Rightarrow> string \<Rightarrow> pyval \<Rightarrow> exn + pyval" where
  "py_get (PDict kvs) k d = Inr (case map_of kvs k of None \<Rightarrow> d | Some v \<Rightarrow> v)"
| "py_get v k d = Inl (AttributeError v ''get'')"

text \<open>\<open>s.replace('/ip', '/headers')\<close>: every occurrence, left to right.\<close>

fun replace_ip :: "string \<Rightarrow> string" where
  "replace_ip (a # b # c # rest) =
     (if [a, b, c] = ''/ip'' then ''/headers'' @ replace_ip rest
      else a # replace_ip (b # c # rest))"
| "replace_ip s = s"

section \<open>The network and the checker's state\<close>

text \<open>
  A request is either direct or relayed through a proxy (\<open>proxies=...\<close>); the second
  component is the URL. A response is what the three calls \<open>requests.get\<close>,
  \<open>raise_for_status\<close> and \<open>.json()\<close> deliver together: the decoded body, or the first
  exception any of them raises.

  The network is a parameter: \<open>net n r\<close> is the response to request \<open>r\<close> when \<open>n\<close>
  requests have been sent before it, so that the same request may be answered
  differently at different times.
\<close>

datatype request = Direct string | Via string string

datatype response = Raised exn | Body pyval

type_synonym network = "nat \<Rightarrow> request \<Rightarrow> response"

text \<open>
  A \<open>Proxy\<close> object is identified with its \<open>proxy\<close> attribute, the \<open>host:port\<close> string.
  The state holds the fields of \<open>AnonymousChecker\<close> that the code reads or writes
  (\<open>check_url\<close>, \<open>_real_ip\<close>), the requests sent so far, and the two tables of
  \<open>ProxyHandler\<close>: what \<open>getAll()\<close> returns and what \<open>putAnonymous\<close> has been given.
\<close>

type_synonym proxy = string

record checker =
  check_url :: string
  real_ip_field :: "string option"
  sent :: "request list"
  all_table :: "proxy list"
  anonymous_table :: "proxy list"

definition headers_url :: "checker \<Rightarrow> string" where
  "headers_url st = replace_ip (check_url st)"

definition http_get :: "network \<Rightarrow> request \<Rightarrow> checker \<Rightarrow> response \<times> checker" where
  "http_get net r st = (net (length (sent st)) r, st\<lparr>sent := sent st @ [r]\<rparr>)"

section \<open>AnonymousChecker\<close>

text \<open>
  \<open>PROXY_HEADERS\<close>, lines 24-35.
\<close>

definition PROXY_HEADERS :: "string list" where
  "PROXY_HEADERS =
     [''X-Forwarded-For'', ''X-Real-Ip'', ''X-Forwarded'', ''Forwarded-For'', ''Forwarded'',
      ''Via'', ''X-Client-Ip'', ''Client-Ip'', ''True-Client-Ip'', ''Cf-Connecting-Ip'']"

text \<open>
  What both \<open>_get_real_ip\<close> (lines 56-58) and \<open>_check_anonymous\<close> (lines 95-104) read
  off a response before anything else: the value of \<open>.json().get("origin", "")\<close>, on
  which \<open>.split(',')\<close> is then called. Every way of raising up to and including that
  call is an \<open>Inl\<close>.
\<close>

definition origin_of :: "response \<Rightarrow> exn + string" where
  "origin_of resp =
     (case resp of
        Raised e \<Rightarrow> Inl e
      | Body j \<Rightarrow>
          (case py_get j ''origin'' (PStr []) of
             Inl e \<Rightarrow> Inl e
           | Inr (PStr origin) \<Rightarrow> Inr origin
           | Inr v \<Rightarrow> Inl (AttributeError v ''split'')))"

text \<open>
  \<open>_get_real_ip\<close>, lines 51-63. The field is returned without a request when it is
  truthy. Otherwise one direct request is sent; the first element of the \<open>origin\<close>
  field, stripped, is stored and returned; any exception gives \<open>None\<close> and leaves the
  field as it was.
\<close>

definition get_real_ip :: "network \<Rightarrow> checker \<Rightarrow> string option \<times> checker" where
  "get_real_ip net st =
     (if known (real_ip_field st) then (real_ip_field st, st)
      else
        (let (resp, st1) = http_get net (Direct (check_url st)) st in
         case origin_of resp of
           Inl e \<Rightarrow> (None, st1)
         | Inr origin \<Rightarrow>
             (let ip = strip (hd (split_chr CHR '','' origin))
              in (Some ip, st1\<lparr>real_ip_field := Some ip\<rparr>))))"

text \<open>
  The fourth component of the tuple \<open>_check_anonymous\<close> returns, one constructor for
  each string literal of the source, in the order of the source (lines 108, 112, 118,
  136, 143, 146, 148, 151). \<open>HeaderExposed\<close> carries the header's name,
  \<open>CheckException\<close> the first 50 characters of \<open>str(e)\<close>.
\<close>

datatype reason =
    ExposesRealIP
  | MultiIP
  | TransparentProxy
  | HeaderExposed string
  | HighAnonymous
  | TimedOut
  | ProxyConnectFailed
  | CheckException string

type_synonym result = "proxy \<times> bool \<times> string option \<times> reason"

text \<open>The three \<open>except\<close> clauses of lines 145-151, in their order.\<close>

fun failed_result :: "proxy \<Rightarrow> exn \<Rightarrow> result" where
  "failed_result proxy (Timeout m) = (proxy, False, None, TimedOut)"
| "failed_result proxy (ProxyError m) = (proxy, False, None, ProxyConnectFailed)"
| "failed_result proxy (OtherError m) = (proxy, False, None, CheckException (take 50 m))"

text \<open>
  \<open>real_ip and real_ip in xs\<close> and \<open>real_ip and x == real_ip\<close>: a test on the real IP
  that is made only when the real IP is truthy.
\<close>

fun real_ip_and :: "string option \<Rightarrow> (string \<Rightarrow> bool) \<Rightarrow> bool" where
  "real_ip_and None test = False"
| "real_ip_and (Some r) test = (r \<noteq> [] \<and> test r)"

text \<open>The condition of line 107, \<open>real_ip and real_ip in origin_ips\<close>.\<close>

definition exposes_real_ip :: "string option \<Rightarrow> string list \<Rightarrow> bool" where
  "exposes_real_ip real_ip origin_ips = real_ip_and real_ip (\<lambda>r. r \<in> set origin_ips)"

text \<open>The condition of line 117, \<open>real_ip and origin_ips[0] == real_ip\<close>.\<close>

definition first_is_real_ip :: "string option \<Rightarrow> string list \<Rightarrow> bool" where
  "first_is_real_ip real_ip origin_ips = real_ip_and real_ip (\<lambda>r. hd origin_ips = r)"

text \<open>
  The loop of lines 133-136 over the header names still to inspect. The result is
  \<open>Inr (Some h)\<close> when header \<open>h\<close> exposes the real IP, \<open>Inr None\<close> when the loop ends,
  and \<open>Inl e\<close> when \<open>.get\<close> or \<open>in\<close> raises. The operands of the condition of line 135
  are evaluated left to right, so \<open>in\<close> is evaluated for a truthy value and a truthy
  \<open>real_ip\<close> only.
\<close>

fun scan_headers :: "pyval \<Rightarrow> string option \<Rightarrow> string list \<Rightarrow> exn + string option" where
  "scan_headers response_headers real_ip [] = Inr None"
| "scan_headers response_headers real_ip (header # rest) =
     (case py_get response_headers header (PStr []) of
        Inl e \<Rightarrow> Inl e
      | Inr header_value \<Rightarrow>
          (if \<not> truthy header_value then scan_headers response_headers real_ip rest
           else
             (case real_ip of
                None \<Rightarrow> scan_headers response_headers real_ip rest
              | Some r \<Rightarrow>
                  (if r = [] then scan_headers response_headers real_ip rest
                   else
                     (case py_in r header_value of
                        Inl e \<Rightarrow> Inl e
                      | Inr True \<Rightarrow> Inr (Some header)
                      | Inr False \<Rightarrow> scan_headers response_headers real_ip rest)))))"

text \<open>
  Step 2, the inner \<open>try\<close> of lines 121-140: the name of the exposing header, or
  \<open>None\<close> when no header exposes the real IP or when anything raised (the inner
  \<open>except Exception\<close> only logs).
\<close>

definition header_check :: "response \<Rightarrow> string option \<Rightarrow> string option" where
  "header_check resp_headers real_ip =
     (case resp_headers of
        Raised e \<Rightarrow> None
      | Body j \<Rightarrow>
          (case py_get j ''headers'' (PDict []) of
             Inl e \<Rightarrow> None
           | Inr response_headers \<Rightarrow>
               (case scan_headers response_headers real_ip PROXY_HEADERS of
                  Inl e \<Rightarrow> None
                | Inr leak \<Rightarrow> leak)))"

text \<open>
  Line 134 on a dictionary of headers: \<open>response_headers.get(header, "")\<close>.
\<close>

definition header_value :: "(string \<times> pyval) list \<Rightarrow> string \<Rightarrow> pyval" where
  "header_value hs header = (case map_of hs header of None \<Rightarrow> PStr [] | Some v \<Rightarrow> v)"

text \<open>
  The condition of line 135 on one header value, for a truthy real IP \<open>r\<close>: it holds
  (the value is truthy and contains \<open>r\<close>), or evaluating it raises (the value is truthy
  and \<open>in\<close> is not defined on it), or it is false.
\<close>

definition exposing :: "string \<Rightarrow> pyval \<Rightarrow> bool" where
  "exposing r v = (truthy v \<and> py_in r v = Inr True)"

definition raising :: "string \<Rightarrow> pyval \<Rightarrow> bool" where
  "raising r v = (truthy v \<and> isl (py_in r v))"

text \<open>Line 104: \<open>[ip.strip() for ip in origin.split(',')]\<close>.\<close>

definition origin_ips_of :: "string \<Rightarrow> string list" where
  "origin_ips_of origin = map strip (split_chr CHR '','' origin)"

text \<open>Line 82: \<open>proxy_str.split(':')[0]\<close>.\<close>

definition proxy_ip_of :: "proxy \<Rightarrow> string" where
  "proxy_ip_of proxy_str = hd (split_chr CHR '':'' proxy_str)"

text \<open>
  \<open>_check_anonymous\<close>, lines 65-151: step 1 with its three checks (lines 95-118),
  then step 2 (lines 121-143); the outer \<open>except\<close> clauses are \<open>failed_result\<close>.
\<close>

definition check_anonymous ::
  "network \<Rightarrow> proxy \<Rightarrow> string option \<Rightarrow> checker \<Rightarrow> result \<times> checker" where
  "check_anonymous net proxy real_ip st =
     (let proxy_ip = proxy_ip_of proxy;
          (resp_ip, st1) = http_get net (Via proxy (check_url st)) st
      in case origin_of resp_ip of
           Inl e \<Rightarrow> (failed_result proxy e, st1)
         | Inr origin \<Rightarrow>
             (let origin_ips = origin_ips_of origin
              in if exposes_real_ip real_ip origin_ips
                 then ((proxy, False, Some origin, ExposesRealIP), st1)
                 else if length origin_ips \<noteq> 1
                 then ((proxy, False, Some origin, MultiIP), st1)
                 else if hd origin_ips \<noteq> proxy_ip \<and> first_is_real_ip real_ip origin_ips
                 then ((proxy, False, Some origin, TransparentProxy), st1)
                 else
                   (let (resp_headers, st2) =
                          http_get net (Via proxy (headers_url st1)) st1
                    in case header_check resp_headers real_ip of
                         Some header \<Rightarrow>
                           ((proxy, False, Some origin, HeaderExposed header), st2)
                       | None \<Rightarrow>
                           ((proxy, True, Some origin, HighAnonymous), st2))))"

text \<open>
  \<open>run\<close>, lines 153-211. The dictionary it returns is a record of the three counts.
\<close>

record counts =
  anonymous :: nat
  transparent :: nat
  failed :: nat

definition no_counts :: counts where
  "no_counts = \<lparr>anonymous = 0, transparent = 0, failed = 0\<rparr>"

text \<open>
  The pool of lines 180-184 runs \<open>_check_anonymous\<close> once for each proxy. The model
  runs the checks one after the other in the order of submission, and hands the results
  to the loop of line 186 in that order.
\<close>

fun check_all ::
  "network \<Rightarrow> proxy list \<Rightarrow> string option \<Rightarrow> checker \<Rightarrow> result list \<times> checker" where
  "check_all net [] real_ip st = ([], st)"
| "check_all net (proxy # rest) real_ip st =
     (let (res, st1) = check_anonymous net proxy real_ip st;
          (ress, st2) = check_all net rest real_ip st1
      in (res # ress, st2))"

text \<open>The body of the loop of lines 186-200, for one completed future.\<close>

fun tally :: "result \<Rightarrow> counts \<times> checker \<Rightarrow> counts \<times> checker" where
  "tally (proxy, is_anonymous, origin, why) (c, st) =
     (if origin = None then (c\<lparr>failed := failed c + 1\<rparr>, st)
      else if is_anonymous
      then (c\<lparr>anonymous := anonymous c + 1\<rparr>,
            st\<lparr>anonymous_table := anonymous_table st @ [proxy]\<rparr>)
      else (c\<lparr>transparent := transparent c + 1\<rparr>, st))"

fun tally_all :: "result list \<Rightarrow> counts \<times> checker \<Rightarrow> counts \<times> checker" where
  "tally_all [] acc = acc"
| "tally_all (res # ress) acc = tally_all ress (tally res acc)"

definition run :: "network \<Rightarrow> checker \<Rightarrow> counts \<times> checker" where
  "run net st =
     (let (real_ip, st1) = get_real_ip net st;
          all_proxies = all_table st1
      in if all_proxies = [] then (no_counts, st1)
         else
           (let (results, st2) = check_all net all_proxies real_ip st1
            in tally_all results (no_counts, st2)))"

text \<open>
  The three outcomes of a check, as the loop of \<open>run\<close> tells them apart (lines 189,
  193, 198).
\<close>

datatype classification = Anonymous | Transparent | Failed

fun classify :: "result \<Rightarrow> classification" where
  "classify (proxy, is_anonymous, origin, why) =
     (if origin = None then Failed else if is_anonymous then Anonymous else Transparent)"

fun reason_of :: "result \<Rightarrow> reason" where
  "reason_of (proxy, is_anonymous, origin, why) = why"

text \<open>
  Names for the two responses a check may read and for the state it leaves: the
  response to the request of step 1, the response to the request of step 2 (sent
  after it), and the state once the first or both requests have been sent.
\<close>

definition ip_response :: "network \<Rightarrow> proxy \<Rightarrow> checker \<Rightarrow> response" where
  "ip_response net proxy st = net (length (sent st)) (Via proxy (check_url st))"

definition headers_response :: "network \<Rightarrow> proxy \<Rightarrow> checker \<Rightarrow> response" where
  "headers_response net proxy st = net (Suc (length (sent st))) (Via proxy (headers_url st))"

definition after_ip :: "proxy \<Rightarrow> checker \<Rightarrow> checker" where
  "after_ip proxy st = st\<lparr>sent := sent st @ [Via proxy (check_url st)]\<rparr>"

definition after_headers :: "proxy \<Rightarrow> checker \<Rightarrow> checker" where
  "after_headers proxy st =
     st\<lparr>sent := sent st @ [Via proxy (check_url st), Via proxy (headers_url st)]\<rparr>"

text \<open>The response to the direct request that \<open>_get_real_ip\<close> sends in state \<open>st\<close>.\<close>

definition direct_response :: "network \<Rightarrow> checker \<Rightarrow> response" where
  "direct_response net st = net (length (sent st)) (Direct (check_url st))"

fun is_direct :: "request \<Rightarrow> bool" where
  "is_direct (Direct u) = True"
| "is_direct (Via p u) = False"

subsection \<open>Concrete checkers and networks\<close>

text \<open>
  A checker that has not run yet, with the echo service of the test scripts as
  \<open>check_url\<close>, and networks with fixed answers: \<open>echo origin hdrs\<close> reports the real
  address 203.0.113.9 to a direct request, \<open>origin\<close> to a relayed request of step 1 and
  the header map \<open>hdrs\<close> to a relayed request of step 2.
\<close>

definition fresh :: "proxy list \<Rightarrow> checker" where
  "fresh ps =
     \<lparr>check_url = ''http://httpbin.org/ip'', real_ip_field = None, sent = [],
      all_table = ps, anonymous_table = []\<rparr>"

fun echo :: "string \<Rightarrow> pyval \<Rightarrow> network" where
  "echo origin hdrs n (Direct u) = Body (PDict [(''origin'', PStr ''203.0.113.9'')])"
| "echo origin hdrs n (Via p u) =
     (if u = ''http://httpbin.org/ip'' then Body (PDict [(''origin'', PStr origin)])
      else Body (PDict [(''headers'', hdrs)]))"

text \<open>Every request times out.\<close>

fun unreachable :: network where
  "unreachable n r = Raised (Timeout ''timed out'')"

text \<open>The first request times out, the later ones are answered by \<open>echo\<close>.\<close>

fun flaky :: network where
  "flaky n r = (if n = 0 then Raised (Timeout ''timed out'') else echo ''10.0.0.5'' (PDict []) n r)"

text \<open>Step 1 is answered with \<open>origin\<close>, the request of step 2 is refused by the proxy.\<close>

fun headers_down :: "string \<Rightarrow> network" where
  "headers_down origin n (Direct u) = Body (PDict [(''origin'', PStr ''203.0.113.9'')])"
| "headers_down origin n (Via p u) =
     (if u = ''http://httpbin.org/ip'' then Body (PDict [(''origin'', PStr origin)])
      else Raised (ProxyError ''Cannot connect to proxy.''))"

text \<open>
  The proxy 10.0.0.7:9999 times out; every other proxy relays, reports its own host as
  the origin and adds no header.
\<close>

fun one_down :: network where
  "one_down n (Direct u) = Body (PDict [(''origin'', PStr ''203.0.113.9'')])"
| "one_down n (Via p u) =
     (if p = ''10.0.0.7:9999'' then Raised (Timeout ''timed out'')
      else if u = ''http://httpbin.org/ip'' then Body (PDict [(''origin'', PStr (proxy_ip_of p))])
      else Body (PDict [(''headers'', PDict [])]))"

section \<open>FreeproxyAdapter\<close>

text \<open>
  \<open>fetch_all\<close> (lines 178-208) iterates over the generators of its sources in a fixed
  order. What the loop of line 199 sees of one generator is the strings it yields,
  in order, and then either its end or an exception raised out of it; \<open>Run items e\<close>
  is such a run. The merged sequence is modelled as the list of everything
  \<open>fetch_all\<close> yields when it is consumed to its end.
\<close>

datatype source_run = Run (yielded: "string list") (raised: "exn option")

text \<open>
  The inner loop, lines 199-203, from a given \<open>seen\<close> set: the strings yielded on, and
  the \<open>seen\<close> set afterwards.
\<close>

fun take_new :: "string list \<Rightarrow> string set \<Rightarrow> string list \<times> string set" where
  "take_new [] seen = ([], seen)"
| "take_new (proxy # rest) seen =
     (if proxy \<notin> seen then
        (let (out, seen1) = take_new rest (insert proxy seen) in (proxy # out, seen1))
      else take_new rest seen)"

text \<open>
  The outer loop, lines 196-208. An exception raised by a generator is caught at line
  206 and printed; the loop goes on with the next source either way.
\<close>

fun fetch_sources :: "(string \<times> source_run) list \<Rightarrow> string set \<Rightarrow> string list" where
  "fetch_sources [] seen = []"
| "fetch_sources ((name, Run items e) # rest) seen =
     (let (out, seen1) = take_new items seen in out @ fetch_sources rest seen1)"

definition fetch_all :: "(string \<times> source_run) list \<Rightarrow> string list" where
  "fetch_all sources = fetch_sources sources {}"

text \<open>
  One of the sources, \<open>fetch_proxylistdownload\<close> (lines 117-136). \<open>session.get\<close>
  followed by \<open>raise_for_status\<close> gives the text of a page or raises; a \<open>web\<close> maps a
  URL to that outcome. The generator yields the stripped non-empty lines that contain
  a colon, for each of its two URLs in turn; an exception is caught and printed inside
  the loop over the URLs, so the generator itself never raises. The model returns the
  yielded strings and the exceptions that were caught.
\<close>

datatype page = Unavailable exn | Page string

type_synonym web = "string \<Rightarrow> page"

definition proxy_lines :: "string \<Rightarrow> string list" where
  "proxy_lines text_of_page =
     filter (\<lambda>line. line \<noteq> [] \<and> CHR '':'' \<in> set line)
       (map strip (split_chr (CHR 0x0A) (strip text_of_page)))"

fun fetch_urls :: "web \<Rightarrow> string list \<Rightarrow> string list \<times> exn list" where
  "fetch_urls get [] = ([], [])"
| "fetch_urls get (url # urls) =
     (let (items, caught) = fetch_urls get urls
      in case get url of
           Unavailable e \<Rightarrow> (items, e # caught)
         | Page t \<Rightarrow> (proxy_lines t @ items, caught))"

definition fetch_proxylistdownload :: "web \<Rightarrow> string list \<times> exn list" where
  "fetch_proxylistdownload get =
     fetch_urls get
       [''https://www.proxy-list.download/api/v1/get?type=http'',
        ''https://www.proxy-list.download/api/v1/get?type=https'']"

text \<open>
  A web on which the first URL of \<open>fetch_proxylistdownload\<close> serves one endpoint and
  every other URL is unreachable.
\<close>

definition half_web :: web where
  "half_web url =
     (if url = ''https://www.proxy-list.download/api/v1/get?type=http''
      then Page (''10.0.0.5:8080'' @ [CHR 0x0A])
      else Unavailable (OtherError ''503 Server Error''))"

section \<open>Properties of the checker\<close>

subsection \<open>Auxiliary facts\<close>

lemma split_chr_nonempty: "split_chr c s \<noteq> []"
  by (induction s) (auto simp: Let_def)

lemma origin_ips_nonempty: "origin_ips_of origin \<noteq> []"
  by (simp add: origin_ips_of_def split_chr_nonempty)

lemma fresh_fields [simp]:
  "check_url (fresh ps) = ''http://httpbin.org/ip''"
  "real_ip_field (fresh ps) = None"
  "sent (fresh ps) = []"
  "all_table (fresh ps) = ps"
  "anonymous_table (fresh ps) = []"
  by (simp_all add: fresh_def)

lemma after_ip_sent [simp]:
  "sent (after_ip proxy st) = sent st @ [Via proxy (check_url st)]"
  by (simp add: after_ip_def)

lemma after_headers_sent [simp]:
  "sent (after_headers proxy st)
     = sent st @ [Via proxy (check_url st), Via proxy (headers_url st)]"
  by (simp add: after_headers_def)

lemma after_tables [simp]:
  "anonymous_table (after_ip proxy st) = anonymous_table st"
  "anonymous_table (after_headers proxy st) = anonymous_table st"
  "check_url (after_ip proxy st) = check_url st"
  "check_url (after_headers proxy st) = check_url st"
  by (simp_all add: after_ip_def after_headers_def)

text \<open>The two ways step 1 can end: an exception, or an \<open>origin\<close> string to decide on.\<close>

lemma check_anonymous_failed:
  assumes "origin_of (ip_response net proxy st) = Inl e"
  shows "check_anonymous net proxy real_ip st = (failed_result proxy e, after_ip proxy st)"
  using assms
  by (simp add: check_anonymous_def http_get_def ip_response_def after_ip_def Let_def)

lemma check_anonymous_origin:
  assumes "origin_of (ip_response net proxy st) = Inr origin"
  shows "check_anonymous net proxy real_ip st =
     (if exposes_real_ip real_ip (origin_ips_of origin)
      then ((proxy, False, Some origin, ExposesRealIP), after_ip proxy st)
      else if length (origin_ips_of origin) \<noteq> 1
      then ((proxy, False, Some origin, MultiIP), after_ip proxy st)
      else if hd (origin_ips_of origin) \<noteq> proxy_ip_of proxy
              \<and> first_is_real_ip real_ip (origin_ips_of origin)
      then ((proxy, False, Some origin, TransparentProxy), after_ip proxy st)
      else (case header_check (headers_response net proxy st) real_ip of
              Some header \<Rightarrow>
                ((proxy, False, Some origin, HeaderExposed header), after_headers proxy st)
            | None \<Rightarrow>
                ((proxy, True, Some origin, HighAnonymous), after_headers proxy st)))"
  using assms
  by (simp add: check_anonymous_def http_get_def ip_response_def headers_response_def
      after_ip_def after_headers_def headers_url_def Let_def split: option.splits)

lemma first_is_real_ip_exposes:
  assumes "first_is_real_ip real_ip ips" and "ips \<noteq> []"
  shows "exposes_real_ip real_ip ips"
  using assms by (cases real_ip) (auto simp: first_is_real_ip_def exposes_real_ip_def)

lemma failed_result_classify: "classify (failed_result proxy e) = Failed"
  by (cases e) simp_all

lemma failed_result_reason:
  "reason_of (failed_result proxy e) \<in> {TimedOut, ProxyConnectFailed} \<union> range CheckException"
  by (cases e) simp_all

lemma scan_headers_unknown:
  assumes "\<not> known real_ip" and "scan_headers response_headers real_ip hs = Inr leak"
  shows "leak = None"
  using assms
  by (induction hs) (auto split: sum.splits option.splits if_splits)

lemma header_check_unknown:
  assumes "\<not> known real_ip"
  shows "header_check resp real_ip = None"
  using scan_headers_unknown [OF assms]
  by (auto simp: header_check_def split: response.splits sum.splits)

text \<open>With a single origin that is not the real IP, the check goes on to step 2.\<close>

lemma reach_step2:
  assumes "origin_of (ip_response net proxy st) = Inr origin"
    and "length (origin_ips_of origin) = 1"
    and "\<not> exposes_real_ip real_ip (origin_ips_of origin)"
  shows "check_anonymous net proxy real_ip st =
     (case header_check (headers_response net proxy st) real_ip of
        Some header \<Rightarrow>
          ((proxy, False, Some origin, HeaderExposed header), after_headers proxy st)
      | None \<Rightarrow>
          ((proxy, True, Some origin, HighAnonymous), after_headers proxy st))"
proof -
  have "\<not> first_is_real_ip real_ip (origin_ips_of origin)"
    using assms(3) first_is_real_ip_exposes origin_ips_nonempty by blast
  then show ?thesis
    using assms check_anonymous_origin [OF assms(1), of real_ip] by simp
qed

lemma get_real_ip_cached:
  "known (real_ip_field st) \<Longrightarrow> get_real_ip net st = (real_ip_field st, st)"
  by (simp add: get_real_ip_def)

lemma get_real_ip_failed:
  assumes "\<not> known (real_ip_field st)" and "origin_of (direct_response net st) = Inl e"
  shows "get_real_ip net st = (None, st\<lparr>sent := sent st @ [Direct (check_url st)]\<rparr>)"
  using assms by (simp add: get_real_ip_def http_get_def direct_response_def)

lemma get_real_ip_fetched:
  assumes "\<not> known (real_ip_field st)" and "origin_of (direct_response net st) = Inr origin"
  shows "get_real_ip net st =
           (Some (strip (hd (split_chr CHR '','' origin))),
            st\<lparr>sent := sent st @ [Direct (check_url st)],
               real_ip_field := Some (strip (hd (split_chr CHR '','' origin)))\<rparr>)"
  using assms by (simp add: get_real_ip_def http_get_def direct_response_def Let_def)

lemma get_real_ip_sent:
  "sent (snd (get_real_ip net st))
     = (if known (real_ip_field st) then sent st else sent st @ [Direct (check_url st)])"
  by (cases "origin_of (direct_response net st)")
     (simp_all add: get_real_ip_cached get_real_ip_failed get_real_ip_fetched)

lemma get_real_ip_tables:
  "all_table (snd (get_real_ip net st)) = all_table st
   \<and> anonymous_table (snd (get_real_ip net st)) = anonymous_table st
   \<and> check_url (snd (get_real_ip net st)) = check_url st"
  by (cases "origin_of (direct_response net st)"; cases "known (real_ip_field st)")
     (simp_all add: get_real_ip_cached get_real_ip_failed get_real_ip_fetched)

lemma get_real_ip_known_is_field:
  assumes "known (fst (get_real_ip net st))"
  shows "real_ip_field (snd (get_real_ip net st)) = fst (get_real_ip net st)"
  using assms
  by (cases "origin_of (direct_response net st)"; cases "known (real_ip_field st)")
     (simp_all add: get_real_ip_cached get_real_ip_failed get_real_ip_fetched)

lemma tally_all_append: "tally_all (xs @ ys) acc = tally_all ys (tally_all xs acc)"
  by (induction xs arbitrary: acc) simp_all

lemma tally_failed:
  "tally (failed_result proxy e) (c, s) = (c\<lparr>failed := failed c + 1\<rparr>, s)"
  by (cases e) simp_all

text \<open>
  What the loop of \<open>run\<close> has done once every result is in: each count is the number
  of results of its class, and the proxies written are those of the anonymous results,
  whatever the order in which the results arrive.
\<close>

lemma tally_all_totals:
  "tally_all rs (c, s) =
     (c\<lparr>anonymous := anonymous c + length (filter (\<lambda>r. classify r = Anonymous) rs),
        transparent := transparent c + length (filter (\<lambda>r. classify r = Transparent) rs),
        failed := failed c + length (filter (\<lambda>r. classify r = Failed) rs)\<rparr>,
      s\<lparr>anonymous_table :=
           anonymous_table s @ map fst (filter (\<lambda>r. classify r = Anonymous) rs)\<rparr>)"
proof (induction rs arbitrary: c s)
  case Nil
  show ?case by simp
next
  case (Cons r rs)
  obtain p a origin why where r: "r = (p, a, origin, why)"
    by (cases r)
  show ?case
    by (simp add: r Cons.IH)
qed

text \<open>
  Step 2 read off the header map: \<open>in\<close> on strings is containment, and the loop of
  lines 133-136 names the first inspected header whose value exposes the real IP,
  unless an earlier value makes the condition raise.
\<close>

lemma starts_with_iff: "starts_with hay needle \<longleftrightarrow> (\<exists>rest. hay = needle @ rest)"
  by (induction hay needle rule: starts_with.induct) auto

lemma str_in_iff: "str_in needle hay \<longleftrightarrow> (\<exists>a b. hay = a @ needle @ b)"
proof (induction hay)
  case Nil
  show ?case by auto
next
  case (Cons h hs)
  show ?case
  proof
    assume "str_in needle (h # hs)"
    then consider "starts_with (h # hs) needle" | "str_in needle hs"
      by auto
    then show "\<exists>a b. h # hs = a @ needle @ b"
    proof cases
      case 1
      then obtain rest where "h # hs = needle @ rest"
        using starts_with_iff by blast
      then have "h # hs = [] @ needle @ rest" by simp
      then show ?thesis by blast
    next
      case 2
      then obtain a b where "hs = a @ needle @ b"
        using Cons.IH by blast
      then have "h # hs = (h # a) @ needle @ b" by simp
      then show ?thesis by blast
    qed
  next
    assume "\<exists>a b. h # hs = a @ needle @ b"
    then obtain a b where ab: "h # hs = a @ needle @ b" by blast
    show "str_in needle (h # hs)"
    proof (cases a)
      case Nil
      then have "starts_with (h # hs) needle"
        using ab starts_with_iff by auto
      then show ?thesis by simp
    next
      case (Cons x a')
      then have "hs = a' @ needle @ b" using ab by simp
      then have "str_in needle hs" using Cons.IH by blast
      then show ?thesis by simp
    qed
  qed
qed

lemma py_get_dict: "py_get (PDict hs) h (PStr []) = Inr (header_value hs h)"
  by (simp add: header_value_def)

lemma scan_headers_exposed:
  assumes "r \<noteq> []"
  shows "scan_headers (PDict hs) (Some r) names = Inr (Some h) \<longleftrightarrow>
           (\<exists>pre post. names = pre @ h # post
              \<and> exposing r (header_value hs h)
              \<and> (\<forall>g \<in> set pre. \<not> exposing r (header_value hs g)
                                \<and> \<not> raising r (header_value hs g)))"
proof (induction names)
  case Nil
  show ?case by simp
next
  case (Cons g rest)
  let ?v = "header_value hs g"
  let ?R = "\<lambda>names. \<exists>pre post. names = pre @ h # post
              \<and> exposing r (header_value hs h)
              \<and> (\<forall>g \<in> set pre. \<not> exposing r (header_value hs g)
                                \<and> \<not> raising r (header_value hs g))"
  have split: "?R (g # rest) \<longleftrightarrow>
        (g = h \<and> exposing r ?v) \<or> (\<not> exposing r ?v \<and> \<not> raising r ?v \<and> ?R rest)"
  proof
    assume "?R (g # rest)"
    then obtain pre post where p: "g # rest = pre @ h # post"
      "exposing r (header_value hs h)"
      "\<forall>g \<in> set pre. \<not> exposing r (header_value hs g) \<and> \<not> raising r (header_value hs g)"
      by blast
    show "(g = h \<and> exposing r ?v) \<or> (\<not> exposing r ?v \<and> \<not> raising r ?v \<and> ?R rest)"
    proof (cases pre)
      case Nil
      then show ?thesis using p by simp
    next
      case (Cons x pre')
      then have "x = g" "rest = pre' @ h # post" using p(1) by simp_all
      then show ?thesis using p(2,3) Cons by auto
    qed
  next
    assume "(g = h \<and> exposing r ?v) \<or> (\<not> exposing r ?v \<and> \<not> raising r ?v \<and> ?R rest)"
    then show "?R (g # rest)"
    proof
      assume "g = h \<and> exposing r ?v"
      then have "g # rest = [] @ h # rest \<and> exposing r (header_value hs h)" by auto
      then show ?thesis by (metis empty_iff list.set(1))
    next
      assume a: "\<not> exposing r ?v \<and> \<not> raising r ?v \<and> ?R rest"
      then obtain pre post where p: "rest = pre @ h # post"
        "exposing r (header_value hs h)"
        "\<forall>g \<in> set pre. \<not> exposing r (header_value hs g) \<and> \<not> raising r (header_value hs g)"
        by blast
      have "g # rest = (g # pre) @ h # post" using p(1) by simp
      moreover have "\<forall>x \<in> set (g # pre). \<not> exposing r (header_value hs x)
                        \<and> \<not> raising r (header_value hs x)"
        using a p(3) by simp
      ultimately show ?thesis using p(2) by blast
    qed
  qed
  have step: "scan_headers (PDict hs) (Some r) (g # rest) = Inr (Some h) \<longleftrightarrow>
        (g = h \<and> exposing r ?v)
        \<or> (\<not> exposing r ?v \<and> \<not> raising r ?v
            \<and> scan_headers (PDict hs) (Some r) rest = Inr (Some h))"
  proof -
    have eq: "scan_headers (PDict hs) (Some r) (g # rest) =
        (if \<not> truthy ?v then scan_headers (PDict hs) (Some r) rest
         else (case py_in r ?v of
                 Inl e \<Rightarrow> Inl e
               | Inr True \<Rightarrow> Inr (Some g)
               | Inr False \<Rightarrow> scan_headers (PDict hs) (Some r) rest))"
      using assms by (simp add: header_value_def)
    show ?thesis
      by (cases "py_in r ?v")
         (auto simp: eq exposing_def raising_def simp del: scan_headers.simps split: bool.splits)
  qed
  show ?case
    using step split Cons.IH by blast
qed


lemma scan_headers_not_dict:
  assumes "\<forall>hs. response_headers \<noteq> PDict hs" and "names \<noteq> []"
  shows "isl (scan_headers response_headers real_ip names)"
  using assms by (cases names; cases response_headers) simp_all

lemma header_check_exposed:
  "header_check resp real_ip = Some h \<longleftrightarrow>
     (\<exists>r j hs pre post.
        real_ip = Some r \<and> r \<noteq> [] \<and> resp = Body j
        \<and> py_get j ''headers'' (PDict []) = Inr (PDict hs)
        \<and> PROXY_HEADERS = pre @ h # post
        \<and> exposing r (header_value hs h)
        \<and> (\<forall>g \<in> set pre. \<not> exposing r (header_value hs g)
                          \<and> \<not> raising r (header_value hs g)))"
  (is "?L \<longleftrightarrow> ?R")
proof (cases "known real_ip")
  case False
  then have "\<not> ?R" by auto
  then show ?thesis using header_check_unknown [OF False] by simp
next
  case True
  then obtain r where r: "real_ip = Some r" "r \<noteq> []"
    by (cases real_ip) auto
  show ?thesis
  proof (cases resp)
    case (Raised e)
    then show ?thesis by (simp add: header_check_def)
  next
    case (Body j)
    show ?thesis
    proof (cases "py_get j ''headers'' (PDict [])")
      case (Inl e)
      then show ?thesis using Body by (simp add: header_check_def)
    next
      case (Inr rh)
      show ?thesis
      proof (cases "\<exists>hs. rh = PDict hs")
        case True
        then obtain hs where hs: "rh = PDict hs" by blast
        have "?L \<longleftrightarrow> scan_headers (PDict hs) (Some r) PROXY_HEADERS = Inr (Some h)"
          using Body Inr hs r by (auto simp: header_check_def split: sum.splits)
        then show ?thesis
          using scan_headers_exposed [OF r(2), of hs PROXY_HEADERS h] Body Inr hs r
          by auto
      next
        case False
        then have "isl (scan_headers rh real_ip PROXY_HEADERS)"
          using scan_headers_not_dict [of rh PROXY_HEADERS real_ip]
          by (simp add: PROXY_HEADERS_def)
        then have "\<not> ?L"
          using Body Inr by (auto simp: header_check_def split: sum.splits)
        moreover have "\<not> ?R"
          using Body Inr False by auto
        ultimately show ?thesis by blast
      qed
    qed
  qed
qed

text \<open>When every inspected value is a string, only containment matters.\<close>

lemma exposing_str: "r \<noteq> [] \<Longrightarrow> exposing r (PStr s) \<longleftrightarrow> (\<exists>a b. s = a @ r @ b)"
  by (auto simp: exposing_def str_in_iff)

lemma raising_str: "\<not> raising r (PStr s)"
  by (simp add: raising_def)

lemma header_check_strings:
  assumes "r \<noteq> []"
    and "py_get j ''headers'' (PDict []) = Inr (PDict hs)"
    and "\<forall>g \<in> set PROXY_HEADERS. \<exists>s. header_value hs g = PStr s"
  shows "header_check (Body j) (Some r) = None \<longleftrightarrow>
           (\<forall>g \<in> set PROXY_HEADERS. \<forall>s a b. header_value hs g = PStr s \<longrightarrow> s \<noteq> a @ r @ b)"
proof
  assume none: "header_check (Body j) (Some r) = None"
  show "\<forall>g \<in> set PROXY_HEADERS. \<forall>s a b. header_value hs g = PStr s \<longrightarrow> s \<noteq> a @ r @ b"
  proof (rule ccontr)
    assume "\<not> ?thesis"
    then have "\<exists>g \<in> set PROXY_HEADERS. exposing r (header_value hs g)"
      using exposing_str [OF assms(1)] by metis
    then obtain pre h post where sp: "PROXY_HEADERS = pre @ h # post"
      "exposing r (header_value hs h)" "\<forall>g \<in> set pre. \<not> exposing r (header_value hs g)"
      using split_list_first_prop [of PROXY_HEADERS "\<lambda>g. exposing r (header_value hs g)"]
      by blast
    have "\<forall>g \<in> set pre. \<not> raising r (header_value hs g)"
      using assms(3) sp(1) raising_str by (metis Un_iff set_append)
    then have "header_check (Body j) (Some r) = Some h"
      using header_check_exposed [of "Body j" "Some r" h] assms(1,2) sp by blast
    then show False using none by simp
  qed
next
  assume clean: "\<forall>g \<in> set PROXY_HEADERS. \<forall>s a b. header_value hs g = PStr s \<longrightarrow> s \<noteq> a @ r @ b"
  show "header_check (Body j) (Some r) = None"
  proof (rule ccontr)
    assume "header_check (Body j) (Some r) \<noteq> None"
    then obtain h where "header_check (Body j) (Some r) = Some h" by blast
    then obtain hs2 pre post where e: "py_get j ''headers'' (PDict []) = Inr (PDict hs2)"
      "PROXY_HEADERS = pre @ h # post" "exposing r (header_value hs2 h)"
      using header_check_exposed [of "Body j" "Some r" h] by auto
    have same: "hs2 = hs" using e(1) assms(2) by simp
    have mem: "h \<in> set PROXY_HEADERS"
      by (metis e(2) in_set_conv_decomp)
    obtain s where s: "header_value hs h = PStr s" using assms(3) mem by blast
    then have "\<exists>a b. s = a @ r @ b"
      using e(3) same exposing_str [OF assms(1)] by simp
    then show False using clean mem s by blast
  qed
qed

text \<open>Only \<open>_get_real_ip\<close> sends direct requests; a run calls it once.\<close>

lemma check_anonymous_direct:
  "filter is_direct (sent (snd (check_anonymous net proxy real_ip st)))
     = filter is_direct (sent st)"
proof (cases "origin_of (ip_response net proxy st)")
  case (Inl e)
  then show ?thesis by (simp add: check_anonymous_failed)
next
  case (Inr origin)
  show ?thesis
    by (simp add: check_anonymous_origin [OF Inr] split: option.splits)
qed

lemma check_all_direct:
  "filter is_direct (sent (snd (check_all net ps real_ip st))) = filter is_direct (sent st)"
proof (induction ps arbitrary: st)
  case Nil
  show ?case by simp
next
  case (Cons p ps)
  obtain r st1 where c: "check_anonymous net p real_ip st = (r, st1)"
    by (cases "check_anonymous net p real_ip st")
  obtain rs st2 where d: "check_all net ps real_ip st1 = (rs, st2)"
    by (cases "check_all net ps real_ip st1")
  have "filter is_direct (sent st1) = filter is_direct (sent st)"
    using check_anonymous_direct [of net p real_ip st] by (simp add: c)
  moreover have "filter is_direct (sent st2) = filter is_direct (sent st1)"
    using Cons.IH [of st1] by (simp add: d)
  ultimately show ?case
    by (simp add: c d)
qed

lemma tally_all_sent: "sent (snd (tally_all rs (c, s))) = sent s"
  by (simp add: tally_all_totals)

lemma run_direct:
  "filter is_direct (sent (snd (run net st)))
     = filter is_direct (sent st)
       @ (if known (real_ip_field st) then [] else [Direct (check_url st)])"
proof -
  obtain real_ip st1 where g: "get_real_ip net st = (real_ip, st1)"
    by (cases "get_real_ip net st")
  have s1: "sent st1 = (if known (real_ip_field st) then sent st
                        else sent st @ [Direct (check_url st)])"
    using get_real_ip_sent [of net st] by (simp add: g)
  obtain rs st2 where c: "check_all net (all_table st1) real_ip st1 = (rs, st2)"
    by (cases "check_all net (all_table st1) real_ip st1")
  have s2: "filter is_direct (sent st2) = filter is_direct (sent st1)"
    using check_all_direct [of net "all_table st1" real_ip st1] by (simp add: c)
  have "filter is_direct (sent (snd (run net st))) = filter is_direct (sent st1)"
  proof (cases "all_table st1 = []")
    case True
    then show ?thesis by (simp add: run_def g)
  next
    case False
    then show ?thesis by (simp add: run_def g c s2 tally_all_sent)
  qed
  then show ?thesis
    by (simp add: s1)
qed

text \<open>A check changes nothing but the list of requests sent, and reports on its own proxy.\<close>

lemma check_anonymous_frame:
  "fst (fst (check_anonymous net proxy real_ip st)) = proxy
   \<and> anonymous_table (snd (check_anonymous net proxy real_ip st)) = anonymous_table st
   \<and> check_url (snd (check_anonymous net proxy real_ip st)) = check_url st"
proof (cases "origin_of (ip_response net proxy st)")
  case (Inl e)
  then show ?thesis by (cases e) (simp_all add: check_anonymous_failed)
next
  case (Inr origin)
  show ?thesis
    by (simp add: check_anonymous_origin [OF Inr] split: option.splits)
qed

lemma check_all_append:
  "check_all net (ps @ qs) real_ip st =
     (case check_all net ps real_ip st of
        (rs1, st1) \<Rightarrow>
          (case check_all net qs real_ip st1 of (rs2, st2) \<Rightarrow> (rs1 @ rs2, st2)))"
proof (induction ps arbitrary: st)
  case Nil
  show ?case by simp
next
  case (Cons p ps)
  obtain r st1 where c: "check_anonymous net p real_ip st = (r, st1)"
    by (cases "check_anonymous net p real_ip st")
  show ?case
    by (simp add: c Cons.IH split: prod.splits)
qed

lemma check_all_frame:
  "map fst (fst (check_all net ps real_ip st)) = ps
   \<and> anonymous_table (snd (check_all net ps real_ip st)) = anonymous_table st
   \<and> check_url (snd (check_all net ps real_ip st)) = check_url st"
proof (induction ps arbitrary: st)
  case Nil
  show ?case by simp
next
  case (Cons p ps)
  obtain r st1 where c: "check_anonymous net p real_ip st = (r, st1)"
    by (cases "check_anonymous net p real_ip st")
  obtain rs st2 where d: "check_all net ps real_ip st1 = (rs, st2)"
    by (cases "check_all net ps real_ip st1")
  have "fst r = p" "anonymous_table st1 = anonymous_table st" "check_url st1 = check_url st"
    using check_anonymous_frame [of net p real_ip st] by (simp_all add: c)
  moreover have "map fst rs = ps" "anonymous_table st2 = anonymous_table st1"
    "check_url st2 = check_url st1"
    using Cons.IH [of st1] by (simp_all add: d)
  ultimately show ?case
    by (simp add: c d)
qed

text \<open>
  A whole run, read off the results of its checks: the counts are the numbers of
  results of each class, and the table of anonymous proxies gains the proxies of the
  anonymous results.
\<close>

lemma run_totals:
  assumes "get_real_ip net st = (real_ip, st1)"
    and "check_all net (all_table st) real_ip st1 = (rs, st2)"
  shows "fst (run net st) =
           \<lparr>anonymous = length (filter (\<lambda>r. classify r = Anonymous) rs),
            transparent = length (filter (\<lambda>r. classify r = Transparent) rs),
            failed = length (filter (\<lambda>r. classify r = Failed) rs)\<rparr>
       \<and> anonymous_table (snd (run net st))
           = anonymous_table st @ map fst (filter (\<lambda>r. classify r = Anonymous) rs)"
proof -
  have t: "all_table st1 = all_table st" "anonymous_table st1 = anonymous_table st"
    using get_real_ip_tables [of net st] by (simp_all add: assms(1))
  have a2: "anonymous_table st2 = anonymous_table st"
    using check_all_frame [of net "all_table st" real_ip st1] t by (simp add: assms(2))
  have "run net st = tally_all rs (no_counts, st2)"
  proof (cases "all_table st = []")
    case True
    then show ?thesis using assms t by (simp add: run_def)
  next
    case False
    then show ?thesis using assms t by (simp add: run_def)
  qed
  then show ?thesis
    by (simp add: tally_all_totals no_counts_def a2)
qed

subsection \<open>Step 1: the real IP among the origins\<close>

text \<open>
  C1. When the real IP is known (a non-empty string) and is one of the addresses that
  step 1 reads from the echo service, the check returns a non-anonymous result with
  the reason "exposes the real IP", after the single request of step 1. Nothing is
  assumed about the number of addresses: the rule comes first, also when there are
  several.
\<close>

theorem exposed_real_ip_is_transparent:
  assumes "origin_of (ip_response net proxy st) = Inr origin"
    and "real_ip = Some r" and "r \<noteq> []"
    and "r \<in> set (origin_ips_of origin)"
  shows "check_anonymous net proxy real_ip st =
           ((proxy, False, Some origin, ExposesRealIP), after_ip proxy st)
         \<and> classify (fst (check_anonymous net proxy real_ip st)) = Transparent"
proof -
  have "exposes_real_ip real_ip (origin_ips_of origin)"
    using assms(2-4) by (simp add: exposes_real_ip_def)
  then show ?thesis
    using check_anonymous_origin [OF assms(1), of real_ip] by simp
qed

theorem exposed_real_ip_is_transparent_witness:
  "origin_of (ip_response (echo ''10.0.0.6, 203.0.113.9'' (PDict [])) ''10.0.0.6:8080'' (fresh []))
     = Inr ''10.0.0.6, 203.0.113.9''
   \<and> ''203.0.113.9'' \<in> set (origin_ips_of ''10.0.0.6, 203.0.113.9'')
   \<and> length (origin_ips_of ''10.0.0.6, 203.0.113.9'') = 2
   \<and> check_anonymous (echo ''10.0.0.6, 203.0.113.9'' (PDict [])) ''10.0.0.6:8080''
        (Some ''203.0.113.9'') (fresh [])
      = ((''10.0.0.6:8080'', False, Some ''10.0.0.6, 203.0.113.9'', ExposesRealIP),
         after_ip ''10.0.0.6:8080'' (fresh []))"
proof -
  have h1: "origin_of (ip_response (echo ''10.0.0.6, 203.0.113.9'' (PDict [])) ''10.0.0.6:8080'' (fresh []))
     = Inr ''10.0.0.6, 203.0.113.9''"
    by (simp add: origin_of_def ip_response_def)
  have h2: "''203.0.113.9'' \<in> set (origin_ips_of ''10.0.0.6, 203.0.113.9'')"
    by (simp add: origin_ips_of_def strip_def is_space_def)
  have h3: "length (origin_ips_of ''10.0.0.6, 203.0.113.9'') = 2"
    by (simp add: origin_ips_of_def)
  have h4: "''203.0.113.9'' \<noteq> []"
    by simp
  show ?thesis
    using exposed_real_ip_is_transparent [OF h1 refl h4 h2] h1 h2 h3 by simp
qed

subsection \<open>Step 1: several origins\<close>

text \<open>
  C2. When step 1 reads more than one address and the real-IP rule has not fired, the
  check returns a non-anonymous result with the reason "several IPs", and the only
  request it has sent is the one of step 1: the header request is not made.
\<close>

theorem several_origins_is_transparent:
  assumes "origin_of (ip_response net proxy st) = Inr origin"
    and "1 < length (origin_ips_of origin)"
    and "\<not> exposes_real_ip real_ip (origin_ips_of origin)"
  shows "check_anonymous net proxy real_ip st =
           ((proxy, False, Some origin, MultiIP), after_ip proxy st)
         \<and> classify (fst (check_anonymous net proxy real_ip st)) = Transparent
         \<and> sent (snd (check_anonymous net proxy real_ip st))
             = sent st @ [Via proxy (check_url st)]"
  using assms check_anonymous_origin [OF assms(1), of real_ip]
  by simp

theorem several_origins_is_transparent_witness:
  "origin_of (ip_response (echo ''10.0.0.6, 10.0.0.1'' (PDict [])) ''10.0.0.6:8080'' (fresh []))
     = Inr ''10.0.0.6, 10.0.0.1''
   \<and> 1 < length (origin_ips_of ''10.0.0.6, 10.0.0.1'')
   \<and> \<not> exposes_real_ip (Some ''203.0.113.9'') (origin_ips_of ''10.0.0.6, 10.0.0.1'')
   \<and> check_anonymous (echo ''10.0.0.6, 10.0.0.1'' (PDict [])) ''10.0.0.6:8080''
        (Some ''203.0.113.9'') (fresh [])
      = ((''10.0.0.6:8080'', False, Some ''10.0.0.6, 10.0.0.1'', MultiIP),
         after_ip ''10.0.0.6:8080'' (fresh []))
   \<and> sent (snd (check_anonymous (echo ''10.0.0.6, 10.0.0.1'' (PDict [])) ''10.0.0.6:8080''
        (Some ''203.0.113.9'') (fresh [])))
      = [Via ''10.0.0.6:8080'' ''http://httpbin.org/ip'']"
proof -
  have h1: "origin_of (ip_response (echo ''10.0.0.6, 10.0.0.1'' (PDict [])) ''10.0.0.6:8080'' (fresh []))
     = Inr ''10.0.0.6, 10.0.0.1''"
    by (simp add: origin_of_def ip_response_def)
  have h2: "1 < length (origin_ips_of ''10.0.0.6, 10.0.0.1'')"
    by (simp add: origin_ips_of_def)
  have h3: "\<not> exposes_real_ip (Some ''203.0.113.9'') (origin_ips_of ''10.0.0.6, 10.0.0.1'')"
    by (simp add: exposes_real_ip_def origin_ips_of_def strip_def is_space_def)
  show ?thesis
    using several_origins_is_transparent [OF h1 h2 h3] h1 h2 h3
    by simp
qed

subsection \<open>Step 1: a single origin that is neither the proxy nor the real IP\<close>

text \<open>
  C3, as stated, fails. The proxy 10.0.0.5:8080 reports the single origin 10.0.0.99,
  which is neither its own host nor the known real IP 203.0.113.9; with no exposing
  header the check returns the anonymous result, unflagged.
\<close>

theorem other_single_origin_counterexample:
  "origin_ips_of ''10.0.0.99'' = [''10.0.0.99'']
   \<and> ''10.0.0.99'' \<noteq> proxy_ip_of ''10.0.0.5:8080''
   \<and> ''10.0.0.99'' \<noteq> ''203.0.113.9''
   \<and> check_anonymous (echo ''10.0.0.99'' (PDict [])) ''10.0.0.5:8080''
        (Some ''203.0.113.9'') (fresh [])
      = ((''10.0.0.5:8080'', True, Some ''10.0.0.99'', HighAnonymous),
         after_headers ''10.0.0.5:8080'' (fresh []))
   \<and> classify (fst (check_anonymous (echo ''10.0.0.99'' (PDict [])) ''10.0.0.5:8080''
        (Some ''203.0.113.9'') (fresh []))) = Anonymous"
proof -
  have ips: "origin_ips_of ''10.0.0.99'' = [''10.0.0.99'']"
    by (simp add: origin_ips_of_def strip_def is_space_def)
  have h1: "origin_of (ip_response (echo ''10.0.0.99'' (PDict [])) ''10.0.0.5:8080'' (fresh []))
              = Inr ''10.0.0.99''"
    by (simp add: origin_of_def ip_response_def)
  have h2: "\<not> exposes_real_ip (Some ''203.0.113.9'') (origin_ips_of ''10.0.0.99'')"
    by (simp add: ips exposes_real_ip_def)
  have h3: "header_check (headers_response (echo ''10.0.0.99'' (PDict [])) ''10.0.0.5:8080'' (fresh []))
              (Some ''203.0.113.9'') = None"
    by (simp add: header_check_def headers_response_def headers_url_def PROXY_HEADERS_def)
  have "check_anonymous (echo ''10.0.0.99'' (PDict [])) ''10.0.0.5:8080''
          (Some ''203.0.113.9'') (fresh [])
        = ((''10.0.0.5:8080'', True, Some ''10.0.0.99'', HighAnonymous),
           after_headers ''10.0.0.5:8080'' (fresh []))"
    using reach_step2 [OF h1 _ h2] by (simp add: ips h3)
  then show ?thesis
    by (simp add: ips proxy_ip_of_def)
qed

text \<open>
  C3, amended. When step 1 reads exactly one address, and that address is neither the
  host of the proxy nor (when the real IP is known) the real IP, the check is not
  flagged: it goes on to the header request of step 2, as it does for a proxy that
  reports its own host, and both requests have been sent. The result is non-anonymous
  with the name of header \<open>h\<close> exactly when the real IP is known, the response to the
  header request is a dictionary whose \<open>headers\<close> entry is a dictionary (or is
  missing), \<open>h\<close> is the first of the inspected names whose value is truthy and
  contains the real IP, and no inspected name before \<open>h\<close> has a truthy value on which
  \<open>in\<close> raises. In every other case the result is anonymous: also when the header
  request fails, and when an earlier value makes the test raise. When every inspected
  value is a string, the result is anonymous exactly when none of these strings has the
  real IP as a contiguous part.
\<close>

theorem other_single_origin_goes_to_headers:
  assumes "origin_of (ip_response net proxy st) = Inr origin"
    and "origin_ips_of origin = [ip]"
    and "ip \<noteq> proxy_ip_of proxy"
    and "\<not> exposes_real_ip real_ip [ip]"
  shows "check_anonymous net proxy real_ip st =
           (case header_check (headers_response net proxy st) real_ip of
              Some header \<Rightarrow>
                ((proxy, False, Some origin, HeaderExposed header), after_headers proxy st)
            | None \<Rightarrow>
                ((proxy, True, Some origin, HighAnonymous), after_headers proxy st))
         \<and> sent (snd (check_anonymous net proxy real_ip st))
             = sent st @ [Via proxy (check_url st), Via proxy (headers_url st)]
         \<and> (\<forall>h. fst (check_anonymous net proxy real_ip st)
                    = (proxy, False, Some origin, HeaderExposed h)
               \<longleftrightarrow> (\<exists>r j hs pre post.
                      real_ip = Some r \<and> r \<noteq> []
                      \<and> headers_response net proxy st = Body j
                      \<and> py_get j ''headers'' (PDict []) = Inr (PDict hs)
                      \<and> PROXY_HEADERS = pre @ h # post
                      \<and> exposing r (header_value hs h)
                      \<and> (\<forall>g \<in> set pre. \<not> exposing r (header_value hs g)
                                        \<and> \<not> raising r (header_value hs g))))
         \<and> (fst (check_anonymous net proxy real_ip st)
               = (proxy, True, Some origin, HighAnonymous)
             \<longleftrightarrow> (\<forall>h. fst (check_anonymous net proxy real_ip st)
                         \<noteq> (proxy, False, Some origin, HeaderExposed h)))
         \<and> (\<forall>r j hs.
               real_ip = Some r \<and> r \<noteq> []
               \<and> headers_response net proxy st = Body j
               \<and> py_get j ''headers'' (PDict []) = Inr (PDict hs)
               \<and> (\<forall>g \<in> set PROXY_HEADERS. \<exists>s. header_value hs g = PStr s)
               \<longrightarrow> (fst (check_anonymous net proxy real_ip st)
                       = (proxy, True, Some origin, HighAnonymous)
                     \<longleftrightarrow> (\<forall>g \<in> set PROXY_HEADERS. \<forall>s a b.
                            header_value hs g = PStr s \<longrightarrow> s \<noteq> a @ r @ b)))"
proof -
  have one: "length (origin_ips_of origin) = 1"
    using assms(2) by simp
  have no: "\<not> exposes_real_ip real_ip (origin_ips_of origin)"
    using assms(2,4) by simp
  note res = reach_step2 [OF assms(1) one no]
  have named: "fst (check_anonymous net proxy real_ip st)
                 = (proxy, False, Some origin, HeaderExposed h)
               \<longleftrightarrow> header_check (headers_response net proxy st) real_ip = Some h" for h
    by (simp add: res split: option.splits)
  have anon: "fst (check_anonymous net proxy real_ip st)
                 = (proxy, True, Some origin, HighAnonymous)
               \<longleftrightarrow> header_check (headers_response net proxy st) real_ip = None"
    by (simp add: res split: option.splits)
  have a: "check_anonymous net proxy real_ip st =
           (case header_check (headers_response net proxy st) real_ip of
              Some header \<Rightarrow>
                ((proxy, False, Some origin, HeaderExposed header), after_headers proxy st)
            | None \<Rightarrow>
                ((proxy, True, Some origin, HighAnonymous), after_headers proxy st))"
    by (rule res)
  have b: "sent (snd (check_anonymous net proxy real_ip st))
             = sent st @ [Via proxy (check_url st), Via proxy (headers_url st)]"
    by (simp add: res split: option.splits)
  have c: "\<forall>h. fst (check_anonymous net proxy real_ip st)
                    = (proxy, False, Some origin, HeaderExposed h)
               \<longleftrightarrow> (\<exists>r j hs pre post.
                      real_ip = Some r \<and> r \<noteq> []
                      \<and> headers_response net proxy st = Body j
                      \<and> py_get j ''headers'' (PDict []) = Inr (PDict hs)
                      \<and> PROXY_HEADERS = pre @ h # post
                      \<and> exposing r (header_value hs h)
                      \<and> (\<forall>g \<in> set pre. \<not> exposing r (header_value hs g)
                                        \<and> \<not> raising r (header_value hs g)))"
    unfolding named header_check_exposed by simp
  have d: "fst (check_anonymous net proxy real_ip st)
               = (proxy, True, Some origin, HighAnonymous)
             \<longleftrightarrow> (\<forall>h. fst (check_anonymous net proxy real_ip st)
                         \<noteq> (proxy, False, Some origin, HeaderExposed h))"
    unfolding named anon by auto
  have e: "\<forall>r j hs.
               real_ip = Some r \<and> r \<noteq> []
               \<and> headers_response net proxy st = Body j
               \<and> py_get j ''headers'' (PDict []) = Inr (PDict hs)
               \<and> (\<forall>g \<in> set PROXY_HEADERS. \<exists>s. header_value hs g = PStr s)
               \<longrightarrow> (fst (check_anonymous net proxy real_ip st)
                       = (proxy, True, Some origin, HighAnonymous)
                     \<longleftrightarrow> (\<forall>g \<in> set PROXY_HEADERS. \<forall>s a b.
                            header_value hs g = PStr s \<longrightarrow> s \<noteq> a @ r @ b))"
    unfolding anon using header_check_strings by auto
  show ?thesis
    using a b c d e by (intro conjI)
qed

theorem other_single_origin_goes_to_headers_witness:
  "origin_ips_of ''10.0.0.99'' = [''10.0.0.99'']
   \<and> ''10.0.0.99'' \<noteq> proxy_ip_of ''10.0.0.5:8080''
   \<and> \<not> exposes_real_ip (Some ''203.0.113.9'') [''10.0.0.99'']
   \<and> check_anonymous (echo ''10.0.0.99'' (PDict [(''Via'', PStr ''1.1 203.0.113.9'')]))
        ''10.0.0.5:8080'' (Some ''203.0.113.9'') (fresh [])
      = ((''10.0.0.5:8080'', False, Some ''10.0.0.99'', HeaderExposed ''Via''),
         after_headers ''10.0.0.5:8080'' (fresh []))
   \<and> check_anonymous (echo ''10.0.0.99'' (PDict [(''X-Forwarded-For'', PStr ''10.0.0.5'')]))
        ''10.0.0.5:8080'' (Some ''203.0.113.9'') (fresh [])
      = ((''10.0.0.5:8080'', True, Some ''10.0.0.99'', HighAnonymous),
         after_headers ''10.0.0.5:8080'' (fresh []))
   \<and> check_anonymous
        (echo ''10.0.0.99''
           (PDict [(''X-Forwarded-For'', PInt 1), (''Via'', PStr ''1.1 203.0.113.9'')]))
        ''10.0.0.5:8080'' (Some ''203.0.113.9'') (fresh [])
      = ((''10.0.0.5:8080'', True, Some ''10.0.0.99'', HighAnonymous),
         after_headers ''10.0.0.5:8080'' (fresh []))"
proof -
  have h1: "origin_of (ip_response (echo ''10.0.0.99'' hdrs) ''10.0.0.5:8080'' (fresh []))
              = Inr ''10.0.0.99''" for hdrs
    by (simp add: origin_of_def ip_response_def)
  have h2: "origin_ips_of ''10.0.0.99'' = [''10.0.0.99'']"
    by (simp add: origin_ips_of_def strip_def is_space_def)
  have h3: "''10.0.0.99'' \<noteq> proxy_ip_of ''10.0.0.5:8080''"
    by (simp add: proxy_ip_of_def)
  have h4: "\<not> exposes_real_ip (Some ''203.0.113.9'') [''10.0.0.99'']"
    by (simp add: exposes_real_ip_def)
  have via: "header_check
      (headers_response (echo ''10.0.0.99'' (PDict [(''Via'', PStr ''1.1 203.0.113.9'')]))
         ''10.0.0.5:8080'' (fresh [])) (Some ''203.0.113.9'') = Some ''Via''"
    by (simp add: header_check_def headers_response_def headers_url_def PROXY_HEADERS_def)
  have other: "header_check
      (headers_response (echo ''10.0.0.99'' (PDict [(''X-Forwarded-For'', PStr ''10.0.0.5'')]))
         ''10.0.0.5:8080'' (fresh [])) (Some ''203.0.113.9'') = None"
    by (simp add: header_check_def headers_response_def headers_url_def PROXY_HEADERS_def)
  have number: "header_check
      (headers_response
         (echo ''10.0.0.99''
            (PDict [(''X-Forwarded-For'', PInt 1), (''Via'', PStr ''1.1 203.0.113.9'')]))
         ''10.0.0.5:8080'' (fresh [])) (Some ''203.0.113.9'') = None"
    by (simp add: header_check_def headers_response_def headers_url_def PROXY_HEADERS_def)
  have r1: "check_anonymous (echo ''10.0.0.99'' (PDict [(''Via'', PStr ''1.1 203.0.113.9'')]))
        ''10.0.0.5:8080'' (Some ''203.0.113.9'') (fresh [])
      = ((''10.0.0.5:8080'', False, Some ''10.0.0.99'', HeaderExposed ''Via''),
         after_headers ''10.0.0.5:8080'' (fresh []))"
    using other_single_origin_goes_to_headers [OF h1 h2 h3 h4, THEN conjunct1]
    by (simp add: via)
  have r2: "check_anonymous (echo ''10.0.0.99'' (PDict [(''X-Forwarded-For'', PStr ''10.0.0.5'')]))
        ''10.0.0.5:8080'' (Some ''203.0.113.9'') (fresh [])
      = ((''10.0.0.5:8080'', True, Some ''10.0.0.99'', HighAnonymous),
         after_headers ''10.0.0.5:8080'' (fresh []))"
    using other_single_origin_goes_to_headers [OF h1 h2 h3 h4, THEN conjunct1]
    by (simp add: other)
  have r3: "check_anonymous
        (echo ''10.0.0.99''
           (PDict [(''X-Forwarded-For'', PInt 1), (''Via'', PStr ''1.1 203.0.113.9'')]))
        ''10.0.0.5:8080'' (Some ''203.0.113.9'') (fresh [])
      = ((''10.0.0.5:8080'', True, Some ''10.0.0.99'', HighAnonymous),
         after_headers ''10.0.0.5:8080'' (fresh []))"
    using other_single_origin_goes_to_headers [OF h1 h2 h3 h4, THEN conjunct1]
    by (simp add: number)
  show ?thesis
    using h2 h3 h4 r1 r2 r3 by (intro conjI)
qed

subsection \<open>A failure in step 1\<close>

text \<open>
  C4. When the request of step 1 raises, or its response cannot be read up to the
  \<open>origin\<close> string, the check ends at once with a failed result: not anonymous, no
  origin, and the reason of the exception's class (timeout, proxy connection, or the
  first 50 characters of any other message). The only request sent is the one of step
  1. In the loop of \<open>run\<close> this result adds one to the failed count and leaves the
  other counts and the table of anonymous proxies as they are, whatever was tallied
  before it and whatever is tallied after it. For a whole \<open>run\<close> in which the proxy
  stands in the table between the proxies \<open>before\<close> and \<open>after\<close>, and step 1 fails
  in the state the run has reached when it checks this proxy: the failed count of the
  run is one more than the number of failed results of the other proxies, the two
  other counts are those of the other proxies alone, and what the run writes to the
  table of anonymous proxies are the proxies of the anonymous results of the other
  checks, so the check of this proxy writes nothing.
\<close>

theorem failed_ip_request_is_failed:
  assumes "origin_of (ip_response net proxy st) = Inl e"
  shows "check_anonymous net proxy real_ip st = (failed_result proxy e, after_ip proxy st)
       \<and> failed_result proxy e =
           (proxy, False, None,
            case e of Timeout m \<Rightarrow> TimedOut
                    | ProxyError m \<Rightarrow> ProxyConnectFailed
                    | OtherError m \<Rightarrow> CheckException (take 50 m))
       \<and> classify (fst (check_anonymous net proxy real_ip st)) = Failed
       \<and> sent (snd (check_anonymous net proxy real_ip st))
           = sent st @ [Via proxy (check_url st)]
       \<and> tally (fst (check_anonymous net proxy real_ip st)) (c, s)
           = (c\<lparr>failed := failed c + 1\<rparr>, s)
       \<and> tally_all (earlier @ fst (check_anonymous net proxy real_ip st) # later) (c, s)
           = tally_all later
               (case tally_all earlier (c, s) of
                  (c1, s1) \<Rightarrow> (c1\<lparr>failed := failed c1 + 1\<rparr>, s1))
       \<and> (\<forall>st0 st1 before after rs1 rs2 st2.
             get_real_ip net st0 = (real_ip, st1)
             \<and> all_table st0 = before @ proxy # after
             \<and> check_all net before real_ip st1 = (rs1, st)
             \<and> check_all net after real_ip (after_ip proxy st) = (rs2, st2)
             \<longrightarrow>
               fst (check_all net (all_table st0) real_ip st1)
                 = rs1 @ failed_result proxy e # rs2
               \<and> map fst (rs1 @ rs2) = before @ after
               \<and> fst (run net st0) =
                   \<lparr>anonymous = length (filter (\<lambda>r. classify r = Anonymous) (rs1 @ rs2)),
                    transparent = length (filter (\<lambda>r. classify r = Transparent) (rs1 @ rs2)),
                    failed = Suc (length (filter (\<lambda>r. classify r = Failed) (rs1 @ rs2)))\<rparr>
               \<and> anonymous_table (snd (run net st0))
                   = anonymous_table st0
                     @ map fst (filter (\<lambda>r. classify r = Anonymous) (rs1 @ rs2)))"
  (is "?P1 \<and> ?P2 \<and> ?P3 \<and> ?P4 \<and> ?P5 \<and> ?P6 \<and> ?P7")
proof -
  have res: "check_anonymous net proxy real_ip st = (failed_result proxy e, after_ip proxy st)"
    using assms by (rule check_anonymous_failed)
  have shape: "failed_result proxy e =
           (proxy, False, None,
            case e of Timeout m \<Rightarrow> TimedOut
                    | ProxyError m \<Rightarrow> ProxyConnectFailed
                    | OtherError m \<Rightarrow> CheckException (take 50 m))"
    by (cases e) simp_all
  have loop: "tally_all (earlier @ failed_result proxy e # later) (c, s)
           = tally_all later
               (case tally_all earlier (c, s) of
                  (c1, s1) \<Rightarrow> (c1\<lparr>failed := failed c1 + 1\<rparr>, s1))"
    by (cases "tally_all earlier (c, s)") (simp add: tally_all_append tally_failed)
  have whole: "fst (check_all net (all_table st0) real_ip st1)
                 = rs1 @ failed_result proxy e # rs2
               \<and> map fst (rs1 @ rs2) = before @ after
               \<and> fst (run net st0) =
                   \<lparr>anonymous = length (filter (\<lambda>r. classify r = Anonymous) (rs1 @ rs2)),
                    transparent = length (filter (\<lambda>r. classify r = Transparent) (rs1 @ rs2)),
                    failed = Suc (length (filter (\<lambda>r. classify r = Failed) (rs1 @ rs2)))\<rparr>
               \<and> anonymous_table (snd (run net st0))
                   = anonymous_table st0
                     @ map fst (filter (\<lambda>r. classify r = Anonymous) (rs1 @ rs2))"
    if g: "get_real_ip net st0 = (real_ip, st1)"
      and t: "all_table st0 = before @ proxy # after"
      and c1: "check_all net before real_ip st1 = (rs1, st)"
      and c2: "check_all net after real_ip (after_ip proxy st) = (rs2, st2)"
    for st0 st1 before after rs1 rs2 st2
  proof -
    have all: "check_all net (all_table st0) real_ip st1
                 = (rs1 @ failed_result proxy e # rs2, st2)"
      by (simp add: t check_all_append c1 res c2)
    have names: "map fst (rs1 @ rs2) = before @ after"
      using check_all_frame [of net before real_ip st1]
        check_all_frame [of net after real_ip "after_ip proxy st"]
      by (simp add: c1 c2)
    show ?thesis
      using run_totals [OF g all] names
      by (simp add: all failed_result_classify)
  qed
  have p3: ?P3 by (simp add: res failed_result_classify)
  have p4: ?P4 by (simp add: res)
  have p5: ?P5 by (simp add: res tally_failed)
  have p6: ?P6 using loop by (simp add: res)
  have p7: ?P7
    by (intro allI impI) (elim conjE, rule whole, assumption+)
  show ?thesis
    using res shape p3 p4 p5 p6 p7 by (intro conjI)
qed

theorem failed_ip_request_is_failed_witness:
  "origin_of (ip_response unreachable ''10.0.0.7:9999'' (fresh [''10.0.0.7:9999'']))
     = Inl (Timeout ''timed out'')
   \<and> check_anonymous unreachable ''10.0.0.7:9999'' None (fresh [''10.0.0.7:9999''])
       = ((''10.0.0.7:9999'', False, None, TimedOut),
          after_ip ''10.0.0.7:9999'' (fresh [''10.0.0.7:9999'']))
   \<and> tally (fst (check_anonymous unreachable ''10.0.0.7:9999'' None (fresh [''10.0.0.7:9999''])))
        (no_counts, fresh [''10.0.0.7:9999''])
       = (\<lparr>anonymous = 0, transparent = 0, failed = 1\<rparr>, fresh [''10.0.0.7:9999''])
   \<and> all_table (fresh [''10.0.0.5:8080'', ''10.0.0.7:9999'', ''10.0.0.6:3128''])
       = [''10.0.0.5:8080''] @ ''10.0.0.7:9999'' # [''10.0.0.6:3128'']
   \<and> fst (run one_down (fresh [''10.0.0.5:8080'', ''10.0.0.7:9999'', ''10.0.0.6:3128'']))
       = \<lparr>anonymous = 2, transparent = 0, failed = 1\<rparr>
   \<and> anonymous_table
        (snd (run one_down (fresh [''10.0.0.5:8080'', ''10.0.0.7:9999'', ''10.0.0.6:3128''])))
       = [''10.0.0.5:8080'', ''10.0.0.6:3128'']"
proof -
  let ?st0 = "fresh [''10.0.0.5:8080'', ''10.0.0.7:9999'', ''10.0.0.6:3128'']"
  let ?st1 = "snd (get_real_ip one_down ?st0)"
  let ?ip = "Some ''203.0.113.9''"
  let ?c1 = "check_all one_down [''10.0.0.5:8080''] ?ip ?st1"
  let ?c2 = "check_all one_down [''10.0.0.6:3128''] ?ip (after_ip ''10.0.0.7:9999'' (snd ?c1))"
  have h: "origin_of (ip_response unreachable ''10.0.0.7:9999'' (fresh [''10.0.0.7:9999'']))
     = Inl (Timeout ''timed out'')"
    by (simp add: origin_of_def ip_response_def)
  have probe: "check_anonymous unreachable ''10.0.0.7:9999'' None (fresh [''10.0.0.7:9999''])
       = ((''10.0.0.7:9999'', False, None, TimedOut),
          after_ip ''10.0.0.7:9999'' (fresh [''10.0.0.7:9999'']))
   \<and> tally (fst (check_anonymous unreachable ''10.0.0.7:9999'' None (fresh [''10.0.0.7:9999''])))
        (no_counts, fresh [''10.0.0.7:9999''])
       = (\<lparr>anonymous = 0, transparent = 0, failed = 1\<rparr>, fresh [''10.0.0.7:9999''])"
    using failed_ip_request_is_failed [OF h, of None no_counts "fresh [''10.0.0.7:9999'']"]
    by (simp add: no_counts_def)
  have down: "origin_of (ip_response one_down ''10.0.0.7:9999'' (snd ?c1))
                = Inl (Timeout ''timed out'')"
    by (simp add: origin_of_def ip_response_def)
  have g: "get_real_ip one_down ?st0 = (?ip, ?st1)"
  proof -
    have "fst (get_real_ip one_down ?st0) = ?ip"
      using get_real_ip_fetched [of ?st0 one_down "''203.0.113.9''"]
      by (simp add: origin_of_def direct_response_def strip_def is_space_def)
    then show ?thesis by (metis prod.collapse)
  qed
  have t: "all_table ?st0 = [''10.0.0.5:8080''] @ ''10.0.0.7:9999'' # [''10.0.0.6:3128'']"
    by simp
  have good: "fst (check_anonymous one_down p ?ip s) = (p, True, Some (proxy_ip_of p), HighAnonymous)"
    if "p \<noteq> ''10.0.0.7:9999''" "proxy_ip_of p \<noteq> ''203.0.113.9''"
       "origin_ips_of (proxy_ip_of p) = [proxy_ip_of p]"
       "check_url s = ''http://httpbin.org/ip''" for p s
  proof -
    have o: "origin_of (ip_response one_down p s) = Inr (proxy_ip_of p)"
      using that(1,4) by (simp add: origin_of_def ip_response_def)
    have "header_check (headers_response one_down p s) ?ip = None"
      using that(1,4)
      by (simp add: header_check_def headers_response_def headers_url_def PROXY_HEADERS_def)
    moreover have "\<not> exposes_real_ip ?ip (origin_ips_of (proxy_ip_of p))"
      using that(2,3) by (simp add: exposes_real_ip_def)
    ultimately show ?thesis
      using reach_step2 [OF o, of ?ip] that(3) by simp
  qed
  have single: "fst (check_all one_down [p] rip s) = [fst (check_anonymous one_down p rip s)]"
    for p rip s
    by (cases "check_anonymous one_down p rip s") simp
  have u1: "check_url ?st1 = ''http://httpbin.org/ip''"
    using get_real_ip_tables [of one_down ?st0] by simp
  have u2: "check_url (after_ip ''10.0.0.7:9999'' (snd ?c1)) = ''http://httpbin.org/ip''"
    using check_all_frame [of one_down "[''10.0.0.5:8080'']" ?ip ?st1] u1 by simp
  have r1: "fst ?c1 = [(''10.0.0.5:8080'', True, Some ''10.0.0.5'', HighAnonymous)]"
    using good [of "''10.0.0.5:8080''" ?st1] u1
    by (simp add: single proxy_ip_of_def origin_ips_of_def strip_def is_space_def
          del: check_all.simps)
  have r2: "fst ?c2 = [(''10.0.0.6:3128'', True, Some ''10.0.0.6'', HighAnonymous)]"
    using good [of "''10.0.0.6:3128''" "after_ip ''10.0.0.7:9999'' (snd ?c1)"] u2
    by (simp add: single proxy_ip_of_def origin_ips_of_def strip_def is_space_def
          del: check_all.simps)
  have hyp: "get_real_ip one_down ?st0 = (?ip, ?st1)
      \<and> all_table ?st0 = [''10.0.0.5:8080''] @ ''10.0.0.7:9999'' # [''10.0.0.6:3128'']
      \<and> ?c1 = (fst ?c1, snd ?c1)
      \<and> ?c2 = (fst ?c2, snd ?c2)"
    using g t by (simp del: check_all.simps)
  note whole = failed_ip_request_is_failed [OF down, of ?ip,
      THEN conjunct2, THEN conjunct2, THEN conjunct2, THEN conjunct2, THEN conjunct2,
      THEN conjunct2, rule_format, of ?st0 ?st1 "[''10.0.0.5:8080'']" "[''10.0.0.6:3128'']"
      "fst ?c1" "fst ?c2" "snd ?c2", OF hyp]
  have run: "fst (run one_down ?st0) = \<lparr>anonymous = 2, transparent = 0, failed = 1\<rparr>
      \<and> anonymous_table (snd (run one_down ?st0)) = [''10.0.0.5:8080'', ''10.0.0.6:3128'']"
    using whole [THEN conjunct2, THEN conjunct2]
    by (simp add: r1 r2 del: check_all.simps)
  show ?thesis
    using h probe t run by blast
qed

text \<open>
  Scenario C of the specification as a whole run: one proxy in the table, every
  request times out. The run counts one failure and writes nothing.
\<close>

lemma run_all_timeouts:
  "run unreachable (fresh [''10.0.0.7:9999''])
     = (\<lparr>anonymous = 0, transparent = 0, failed = 1\<rparr>,
        (fresh [''10.0.0.7:9999''])
          \<lparr>sent := [Direct ''http://httpbin.org/ip'',
                    Via ''10.0.0.7:9999'' ''http://httpbin.org/ip'']\<rparr>)"
proof -
  have g: "get_real_ip unreachable (fresh [''10.0.0.7:9999''])
         = (None, (fresh [''10.0.0.7:9999''])\<lparr>sent := [Direct ''http://httpbin.org/ip'']\<rparr>)"
    using get_real_ip_failed [of "fresh [''10.0.0.7:9999'']" unreachable "Timeout ''timed out''"]
    by (simp add: origin_of_def direct_response_def)
  have c: "check_anonymous unreachable ''10.0.0.7:9999'' None
             ((fresh [''10.0.0.7:9999''])\<lparr>sent := [Direct ''http://httpbin.org/ip'']\<rparr>)
         = ((''10.0.0.7:9999'', False, None, TimedOut),
            (fresh [''10.0.0.7:9999''])
              \<lparr>sent := [Direct ''http://httpbin.org/ip'',
                        Via ''10.0.0.7:9999'' ''http://httpbin.org/ip'']\<rparr>)"
    using check_anonymous_failed
      [of unreachable "''10.0.0.7:9999''"
          "(fresh [''10.0.0.7:9999''])\<lparr>sent := [Direct ''http://httpbin.org/ip'']\<rparr>"
          "Timeout ''timed out''" None]
    by (simp add: origin_of_def ip_response_def after_ip_def)
  show ?thesis
    by (simp add: run_def g c no_counts_def)
qed

subsection \<open>A failure in step 2\<close>

text \<open>
  C5. When the check has reached step 2 (a single origin, no exposure of the real IP)
  and the header request raises, whatever the exception, the check still returns the
  anonymous result.
\<close>

theorem failed_headers_request_keeps_anonymous:
  assumes "origin_of (ip_response net proxy st) = Inr origin"
    and "length (origin_ips_of origin) = 1"
    and "\<not> exposes_real_ip real_ip (origin_ips_of origin)"
    and "headers_response net proxy st = Raised e"
  shows "check_anonymous net proxy real_ip st =
           ((proxy, True, Some origin, HighAnonymous), after_headers proxy st)
         \<and> classify (fst (check_anonymous net proxy real_ip st)) = Anonymous"
  using reach_step2 [OF assms(1-3)] assms(4)
  by (simp add: header_check_def)

theorem failed_headers_request_keeps_anonymous_witness:
  "origin_of (ip_response (headers_down ''10.0.0.5'') ''10.0.0.5:8080'' (fresh []))
     = Inr ''10.0.0.5''
   \<and> length (origin_ips_of ''10.0.0.5'') = 1
   \<and> \<not> exposes_real_ip (Some ''203.0.113.9'') (origin_ips_of ''10.0.0.5'')
   \<and> headers_response (headers_down ''10.0.0.5'') ''10.0.0.5:8080'' (fresh [])
       = Raised (ProxyError ''Cannot connect to proxy.'')
   \<and> check_anonymous (headers_down ''10.0.0.5'') ''10.0.0.5:8080'' (Some ''203.0.113.9'')
        (fresh [])
       = ((''10.0.0.5:8080'', True, Some ''10.0.0.5'', HighAnonymous),
          after_headers ''10.0.0.5:8080'' (fresh []))"
proof -
  have h1: "origin_of (ip_response (headers_down ''10.0.0.5'') ''10.0.0.5:8080'' (fresh []))
     = Inr ''10.0.0.5''"
    by (simp add: origin_of_def ip_response_def)
  have h2: "length (origin_ips_of ''10.0.0.5'') = 1"
    by (simp add: origin_ips_of_def)
  have h3: "\<not> exposes_real_ip (Some ''203.0.113.9'') (origin_ips_of ''10.0.0.5'')"
    by (simp add: exposes_real_ip_def origin_ips_of_def strip_def is_space_def)
  have h4: "headers_response (headers_down ''10.0.0.5'') ''10.0.0.5:8080'' (fresh [])
       = Raised (ProxyError ''Cannot connect to proxy.'')"
    by (simp add: headers_response_def headers_url_def)
  show ?thesis
    using failed_headers_request_keeps_anonymous [OF h1 h2 h3 h4] h1 h2 h3 h4
    by simp
qed

subsection \<open>The real IP unknown\<close>

text \<open>
  C6. When the real IP is unknown (\<open>None\<close>, or the empty string that \<open>run\<close> treats
  alike), no check returns the real-IP reason of step 1, the nested reason of line 118
  or a header reason; a non-anonymous result with an origin can only carry the
  several-IPs reason; and every check whose step 1 reads a single address returns the
  anonymous result, whatever that address is and whatever step 2 receives.
\<close>

theorem unknown_real_ip_only_count_rule:
  assumes "\<not> known real_ip"
  shows "reason_of (fst (check_anonymous net proxy real_ip st)) \<noteq> ExposesRealIP
       \<and> reason_of (fst (check_anonymous net proxy real_ip st)) \<noteq> TransparentProxy
       \<and> (\<forall>h. reason_of (fst (check_anonymous net proxy real_ip st)) \<noteq> HeaderExposed h)
       \<and> (classify (fst (check_anonymous net proxy real_ip st)) = Transparent
            \<longrightarrow> reason_of (fst (check_anonymous net proxy real_ip st)) = MultiIP)
       \<and> (\<forall>origin. origin_of (ip_response net proxy st) = Inr origin
            \<longrightarrow> length (origin_ips_of origin) = 1
            \<longrightarrow> fst (check_anonymous net proxy real_ip st)
                  = (proxy, True, Some origin, HighAnonymous))"
proof -
  have no_exp: "\<not> exposes_real_ip real_ip ips" for ips
    using assms by (cases real_ip) (simp_all add: exposes_real_ip_def)
  have no_first: "\<not> first_is_real_ip real_ip ips" for ips
    using assms by (cases real_ip) (simp_all add: first_is_real_ip_def)
  have no_leak: "header_check resp real_ip = None" for resp
    using assms by (rule header_check_unknown)
  show ?thesis
  proof (cases "origin_of (ip_response net proxy st)")
    case (Inl e)
    then show ?thesis
      using failed_result_reason [of proxy e] failed_result_classify [of proxy e]
      by (auto simp: check_anonymous_failed)
  next
    case (Inr origin)
    show ?thesis
      using check_anonymous_origin [OF Inr, of real_ip] Inr
      by (simp add: no_exp no_first no_leak)
  qed
qed

theorem unknown_real_ip_only_count_rule_witness:
  "\<not> known None
   \<and> origin_of (ip_response (echo ''10.0.0.99'' (PDict [(''Via'', PStr ''1.1 203.0.113.9'')]))
        ''10.0.0.5:8080'' (fresh [])) = Inr ''10.0.0.99''
   \<and> length (origin_ips_of ''10.0.0.99'') = 1
   \<and> ''10.0.0.99'' \<noteq> proxy_ip_of ''10.0.0.5:8080''
   \<and> fst (check_anonymous (echo ''10.0.0.99'' (PDict [(''Via'', PStr ''1.1 203.0.113.9'')]))
        ''10.0.0.5:8080'' None (fresh []))
      = (''10.0.0.5:8080'', True, Some ''10.0.0.99'', HighAnonymous)
   \<and> classify (fst (check_anonymous (echo ''10.0.0.6, 203.0.113.9'' (PDict []))
        ''10.0.0.6:8080'' None (fresh []))) = Transparent
   \<and> reason_of (fst (check_anonymous (echo ''10.0.0.6, 203.0.113.9'' (PDict []))
        ''10.0.0.6:8080'' None (fresh []))) = MultiIP"
proof -
  have h0: "\<not> known None"
    by simp
  have h1: "origin_of (ip_response (echo ''10.0.0.99'' (PDict [(''Via'', PStr ''1.1 203.0.113.9'')]))
        ''10.0.0.5:8080'' (fresh [])) = Inr ''10.0.0.99''"
    by (simp add: origin_of_def ip_response_def)
  have h2: "length (origin_ips_of ''10.0.0.99'') = 1"
    by (simp add: origin_ips_of_def)
  have h3: "''10.0.0.99'' \<noteq> proxy_ip_of ''10.0.0.5:8080''"
    by (simp add: proxy_ip_of_def)
  have single: "fst (check_anonymous
        (echo ''10.0.0.99'' (PDict [(''Via'', PStr ''1.1 203.0.113.9'')]))
        ''10.0.0.5:8080'' None (fresh []))
      = (''10.0.0.5:8080'', True, Some ''10.0.0.99'', HighAnonymous)"
    using unknown_real_ip_only_count_rule
      [OF h0, of "echo ''10.0.0.99'' (PDict [(''Via'', PStr ''1.1 203.0.113.9'')])"
         "''10.0.0.5:8080''" "fresh []"] h1 h2
    by simp
  have h4: "origin_of (ip_response (echo ''10.0.0.6, 203.0.113.9'' (PDict []))
        ''10.0.0.6:8080'' (fresh [])) = Inr ''10.0.0.6, 203.0.113.9''"
    by (simp add: origin_of_def ip_response_def)
  have h5: "\<not> exposes_real_ip None (origin_ips_of ''10.0.0.6, 203.0.113.9'')"
    by (simp add: exposes_real_ip_def)
  have h6: "length (origin_ips_of ''10.0.0.6, 203.0.113.9'') \<noteq> 1"
    by (simp add: origin_ips_of_def)
  have several: "classify (fst (check_anonymous (echo ''10.0.0.6, 203.0.113.9'' (PDict []))
        ''10.0.0.6:8080'' None (fresh []))) = Transparent"
    using check_anonymous_origin [OF h4, of None] h5 h6 by simp
  have why: "reason_of (fst (check_anonymous (echo ''10.0.0.6, 203.0.113.9'' (PDict []))
        ''10.0.0.6:8080'' None (fresh []))) = MultiIP"
    using unknown_real_ip_only_count_rule
      [OF h0, of "echo ''10.0.0.6, 203.0.113.9'' (PDict [])" "''10.0.0.6:8080''" "fresh []"]
      several
    by blast
  show ?thesis
    using h0 h1 h2 h3 single several why by blast
qed

subsection \<open>The nested check of line 117\<close>

text \<open>
  C10. The return of line 118 is never executed: no check, on any network, proxy, real
  IP and state, returns its reason. Whenever the condition of line 117 holds, the
  single origin is the truthy real IP, so the condition of line 107 held before it.
\<close>

theorem nested_transparent_unreachable:
  "reason_of (fst (check_anonymous net proxy real_ip st)) \<noteq> TransparentProxy
   \<and> (first_is_real_ip real_ip (origin_ips_of origin)
        \<longrightarrow> exposes_real_ip real_ip (origin_ips_of origin))"
proof -
  have imp: "first_is_real_ip real_ip (origin_ips_of origin)
        \<longrightarrow> exposes_real_ip real_ip (origin_ips_of origin)" for origin
    using first_is_real_ip_exposes origin_ips_nonempty by blast
  have "reason_of (fst (check_anonymous net proxy real_ip st)) \<noteq> TransparentProxy"
  proof (cases "origin_of (ip_response net proxy st)")
    case (Inl e)
    then show ?thesis
      using failed_result_reason [of proxy e]
      by (auto simp: check_anonymous_failed)
  next
    case (Inr o1)
    show ?thesis
      using check_anonymous_origin [OF Inr, of real_ip] imp [of o1]
      by (auto split: option.splits)
  qed
  then show ?thesis
    using imp by simp
qed

theorem nested_transparent_unreachable_witness:
  "first_is_real_ip (Some ''203.0.113.9'') (origin_ips_of ''203.0.113.9'')
   \<and> hd (origin_ips_of ''203.0.113.9'') \<noteq> proxy_ip_of ''10.0.0.5:8080''
   \<and> exposes_real_ip (Some ''203.0.113.9'') (origin_ips_of ''203.0.113.9'')
   \<and> reason_of (fst (check_anonymous (echo ''203.0.113.9'' (PDict [])) ''10.0.0.5:8080''
        (Some ''203.0.113.9'') (fresh []))) \<noteq> TransparentProxy"
proof -
  have h1: "first_is_real_ip (Some ''203.0.113.9'') (origin_ips_of ''203.0.113.9'')"
    by (simp add: first_is_real_ip_def origin_ips_of_def strip_def is_space_def)
  have h2: "hd (origin_ips_of ''203.0.113.9'') \<noteq> proxy_ip_of ''10.0.0.5:8080''"
    by (simp add: proxy_ip_of_def origin_ips_of_def strip_def is_space_def)
  show ?thesis
    using nested_transparent_unreachable
      [of "echo ''203.0.113.9'' (PDict [])" "''10.0.0.5:8080''" "Some ''203.0.113.9''"
          "fresh []" "''203.0.113.9''"] h1 h2
    by simp
qed

section \<open>Properties of the resolver and of the run\<close>

subsection \<open>A run with no proxies\<close>

text \<open>
  C7, as stated, fails. \<open>run\<close> calls \<open>_get_real_ip\<close> (line 163) before it reads the
  table of proxies (line 168): on a checker that has not resolved its real IP yet, a
  run over an empty table sends the direct request.
\<close>

theorem empty_run_counterexample:
  "all_table (fresh []) = []
   \<and> fst (run (echo ''10.0.0.5'' (PDict [])) (fresh [])) = no_counts
   \<and> sent (fresh []) = []
   \<and> sent (snd (run (echo ''10.0.0.5'' (PDict [])) (fresh [])))
       = [Direct ''http://httpbin.org/ip'']"
proof -
  have "get_real_ip (echo ''10.0.0.5'' (PDict [])) (fresh [])
          = (Some ''203.0.113.9'',
             (fresh [])\<lparr>sent := [Direct ''http://httpbin.org/ip''],
                         real_ip_field := Some ''203.0.113.9''\<rparr>)"
    using get_real_ip_fetched [of "fresh []" "echo ''10.0.0.5'' (PDict [])" "''203.0.113.9''"]
    by (simp add: origin_of_def direct_response_def strip_def is_space_def)
  then show ?thesis
    by (simp add: run_def)
qed

text \<open>
  C7, amended. When the table of proxies is empty, \<open>run\<close> returns the three counts at
  zero, sends no request through any proxy and writes nothing: the state it leaves is
  the one \<open>_get_real_ip\<close> leaves. Its only network activity is that of resolving the
  real IP: one direct request, or none when the checker holds a real IP already.
\<close>

theorem empty_run_only_resolves:
  assumes "all_table st = []"
  shows "fst (run net st) = no_counts
       \<and> snd (run net st) = snd (get_real_ip net st)
       \<and> anonymous_table (snd (run net st)) = anonymous_table st
       \<and> sent (snd (run net st))
           = (if known (real_ip_field st) then sent st
              else sent st @ [Direct (check_url st)])"
proof -
  have "all_table (snd (get_real_ip net st)) = []"
    using assms get_real_ip_tables [of net st] by simp
  then have "run net st = (no_counts, snd (get_real_ip net st))"
    by (cases "get_real_ip net st") (simp add: run_def)
  then show ?thesis
    using get_real_ip_tables [of net st] get_real_ip_sent [of net st] by simp
qed

theorem empty_run_only_resolves_witness:
  "all_table ((fresh [])\<lparr>real_ip_field := Some ''203.0.113.9''\<rparr>) = []
   \<and> fst (run unreachable ((fresh [])\<lparr>real_ip_field := Some ''203.0.113.9''\<rparr>)) = no_counts
   \<and> sent (snd (run unreachable ((fresh [])\<lparr>real_ip_field := Some ''203.0.113.9''\<rparr>))) = []"
proof -
  have h: "all_table ((fresh [])\<lparr>real_ip_field := Some ''203.0.113.9''\<rparr>) = []"
    by simp
  note t = empty_run_only_resolves [OF h, of unreachable]
  have counts: "fst (run unreachable ((fresh [])\<lparr>real_ip_field := Some ''203.0.113.9''\<rparr>))
                  = no_counts"
    using t by (rule conjunct1)
  have silent: "sent (snd (run unreachable ((fresh [])\<lparr>real_ip_field := Some ''203.0.113.9''\<rparr>)))
                  = []"
    using t [THEN conjunct2, THEN conjunct2, THEN conjunct2] by simp
  show ?thesis
    using h counts silent by simp
qed

subsection \<open>Resolving the real IP\<close>

text \<open>
  C8, as stated, fails. \<open>_get_real_ip\<close> stores what it fetched only when the fetch
  succeeded, and returns the stored value only when it is truthy. On a network whose
  first answer is a timeout, the first call returns \<open>None\<close>; the second call sends a
  second direct request and returns another value.
\<close>

theorem real_ip_refetched_counterexample:
  "fst (get_real_ip flaky (fresh [])) = None
   \<and> sent (snd (get_real_ip flaky (fresh []))) = [Direct ''http://httpbin.org/ip'']
   \<and> fst (get_real_ip flaky (snd (get_real_ip flaky (fresh [])))) = Some ''203.0.113.9''
   \<and> sent (snd (get_real_ip flaky (snd (get_real_ip flaky (fresh [])))))
       = [Direct ''http://httpbin.org/ip'', Direct ''http://httpbin.org/ip'']"
proof -
  have first: "get_real_ip flaky (fresh [])
                 = (None, (fresh [])\<lparr>sent := [Direct ''http://httpbin.org/ip'']\<rparr>)"
    using get_real_ip_failed [of "fresh []" flaky "Timeout ''timed out''"]
    by (simp add: origin_of_def direct_response_def)
  have second: "get_real_ip flaky ((fresh [])\<lparr>sent := [Direct ''http://httpbin.org/ip'']\<rparr>)
                 = (Some ''203.0.113.9'',
                    (fresh [])\<lparr>sent := [Direct ''http://httpbin.org/ip'',
                                         Direct ''http://httpbin.org/ip''],
                                real_ip_field := Some ''203.0.113.9''\<rparr>)"
    using get_real_ip_fetched
      [of "(fresh [])\<lparr>sent := [Direct ''http://httpbin.org/ip'']\<rparr>" flaky "''203.0.113.9''"]
    by (simp add: origin_of_def direct_response_def strip_def is_space_def)
  show ?thesis
    by (simp add: first second)
qed

text \<open>
  C8, amended. A call of \<open>_get_real_ip\<close> on a checker that holds a truthy real IP
  returns it and sends nothing. Any other call sends exactly one direct request. When
  that request fails (it raises, or its response has no readable \<open>origin\<close> string), the
  call returns \<open>None\<close> without raising and stores nothing, so the next call sends the
  request again. Once a call has returned a truthy address, every later call returns
  the same address and leaves the state as it is, on any network. A whole \<open>run\<close>
  sends at most one direct request: none when the checker holds a truthy real IP, one
  otherwise.
\<close>

theorem real_ip_cached_after_success:
  "(known (real_ip_field st) \<longrightarrow> get_real_ip net st = (real_ip_field st, st))
   \<and> (\<not> known (real_ip_field st) \<longrightarrow>
        sent (snd (get_real_ip net st)) = sent st @ [Direct (check_url st)])
   \<and> (\<forall>e. \<not> known (real_ip_field st) \<and> origin_of (direct_response net st) = Inl e \<longrightarrow>
        get_real_ip net st = (None, st\<lparr>sent := sent st @ [Direct (check_url st)]\<rparr>))
   \<and> (known (fst (get_real_ip net st)) \<longrightarrow>
        get_real_ip net2 (snd (get_real_ip net st))
          = (fst (get_real_ip net st), snd (get_real_ip net st)))
   \<and> filter is_direct (sent (snd (run net st)))
       = filter is_direct (sent st)
         @ (if known (real_ip_field st) then [] else [Direct (check_url st)])"
  using get_real_ip_known_is_field [of net st] run_direct [of net st]
  by (auto simp: get_real_ip_cached get_real_ip_failed get_real_ip_sent)

theorem real_ip_cached_after_success_witness:
  "\<not> known (real_ip_field (fresh []))
   \<and> known (fst (get_real_ip (echo ''10.0.0.5'' (PDict [])) (fresh [])))
   \<and> fst (get_real_ip (echo ''10.0.0.5'' (PDict [])) (fresh [])) = Some ''203.0.113.9''
   \<and> sent (snd (get_real_ip (echo ''10.0.0.5'' (PDict [])) (fresh [])))
       = [Direct ''http://httpbin.org/ip'']
   \<and> get_real_ip unreachable (snd (get_real_ip (echo ''10.0.0.5'' (PDict [])) (fresh [])))
       = (Some ''203.0.113.9'', snd (get_real_ip (echo ''10.0.0.5'' (PDict [])) (fresh [])))
   \<and> origin_of (direct_response unreachable (fresh [])) = Inl (Timeout ''timed out'')
   \<and> get_real_ip unreachable (fresh [])
       = (None, (fresh [])\<lparr>sent := [Direct ''http://httpbin.org/ip'']\<rparr>)"
proof -
  have g: "get_real_ip (echo ''10.0.0.5'' (PDict [])) (fresh [])
          = (Some ''203.0.113.9'',
             (fresh [])\<lparr>sent := [Direct ''http://httpbin.org/ip''],
                         real_ip_field := Some ''203.0.113.9''\<rparr>)"
    using get_real_ip_fetched [of "fresh []" "echo ''10.0.0.5'' (PDict [])" "''203.0.113.9''"]
    by (simp add: origin_of_def direct_response_def strip_def is_space_def)
  have ok: "\<not> known (real_ip_field (fresh []))
   \<and> known (fst (get_real_ip (echo ''10.0.0.5'' (PDict [])) (fresh [])))
   \<and> fst (get_real_ip (echo ''10.0.0.5'' (PDict [])) (fresh [])) = Some ''203.0.113.9''
   \<and> sent (snd (get_real_ip (echo ''10.0.0.5'' (PDict [])) (fresh [])))
       = [Direct ''http://httpbin.org/ip'']
   \<and> get_real_ip unreachable (snd (get_real_ip (echo ''10.0.0.5'' (PDict [])) (fresh [])))
       = (Some ''203.0.113.9'', snd (get_real_ip (echo ''10.0.0.5'' (PDict [])) (fresh [])))"
    using real_ip_cached_after_success [of "fresh []" "echo ''10.0.0.5'' (PDict [])" unreachable]
    by (simp add: g)
  have down: "origin_of (direct_response unreachable (fresh [])) = Inl (Timeout ''timed out'')"
    by (simp add: origin_of_def direct_response_def)
  have none: "get_real_ip unreachable (fresh [])
       = (None, (fresh [])\<lparr>sent := [Direct ''http://httpbin.org/ip'']\<rparr>)"
    using real_ip_cached_after_success [of "fresh []" unreachable] down
    by simp
  show ?thesis
    using ok down none by blast
qed

section \<open>Properties of the fetcher\<close>

lemma take_new_props:
  "take_new items seen = (out, seen1) \<Longrightarrow>
     distinct out \<and> set out = set items - seen \<and> seen1 = seen \<union> set items"
  by (induction items arbitrary: seen out seen1) (auto split: if_splits prod.splits)

lemma fetch_sources_props:
  "distinct (fetch_sources sources seen)
   \<and> set (fetch_sources sources seen) = (\<Union>s \<in> set sources. set (yielded (snd s))) - seen"
proof (induction sources seen rule: fetch_sources.induct)
  case (1 seen)
  show ?case by simp
next
  case (2 name items e rest seen)
  obtain out seen1 where t: "take_new items seen = (out, seen1)"
    by (cases "take_new items seen")
  note p = take_new_props [OF t]
  have ih: "distinct (fetch_sources rest seen1)"
    "set (fetch_sources rest seen1) = (\<Union>s \<in> set rest. set (yielded (snd s))) - seen1"
    using "2.IH" [OF t [symmetric] refl] by simp_all
  show ?case
    using p ih t by auto
qed

lemma fetch_sources_raised_ignored:
  "fetch_sources (map (\<lambda>(name, r). (name, Run (yielded r) None)) sources) seen
     = fetch_sources sources seen"
proof (induction sources seen rule: fetch_sources.induct)
  case (1 seen)
  show ?case by simp
next
  case (2 name items e rest seen)
  then show ?case by (auto split: prod.splits)
qed

lemma distinct_count_one: "distinct xs \<Longrightarrow> x \<in> set xs \<Longrightarrow> count_list xs x = 1"
  by (induction xs) auto

text \<open>
  C9, as stated, fails in its last part. A collector that fails has not always
  contributed nothing: what it yielded before the failure has been yielded on.
  \<open>fetch_proxylistdownload\<close> reads two URLs; on a web where the first serves one
  endpoint and the second is down, it catches and prints the failure of the second
  and has yielded the endpoint of the first, which \<open>fetch_all\<close> keeps. The same holds
  for a generator that raises into the loop of \<open>fetch_all\<close> after its first item.
\<close>

theorem failing_source_counterexample:
  "snd (fetch_proxylistdownload half_web) = [OtherError ''503 Server Error'']
   \<and> fetch_all [(''ProxyListDownload'', Run (fst (fetch_proxylistdownload half_web)) None)]
       = [''10.0.0.5:8080'']
   \<and> fetch_all [(''Other'', Run [''10.0.0.5:8080''] (Some (OtherError ''bad item'')))]
       = [''10.0.0.5:8080'']"
proof -
  have f: "fetch_proxylistdownload half_web
             = ([''10.0.0.5:8080''], [OtherError ''503 Server Error''])"
    by code_simp
  show ?thesis
    by (simp add: f fetch_all_def)
qed

text \<open>
  C9, amended. For every list of sources, the merged sequence has no string twice,
  and it holds exactly the strings that some source yielded: a string yielded by
  several sources, or several times, occurs exactly once. A source that raises does
  not stop the loop: the sequence is the same as if that source had ended normally
  after the strings it yielded before raising, so those strings stay (none, when it
  had yielded none) and the sources after it are read as usual.
\<close>

theorem fetch_all_unique:
  "distinct (fetch_all sources)
   \<and> set (fetch_all sources) = (\<Union>s \<in> set sources. set (yielded (snd s)))
   \<and> (\<forall>p \<in> set (fetch_all sources). count_list (fetch_all sources) p = 1)
   \<and> fetch_all (earlier @ (name, Run items (Some e)) # later)
       = fetch_all (earlier @ (name, Run items None) # later)"
proof -
  have d: "distinct (fetch_all sources)"
    and s: "set (fetch_all sources) = (\<Union>s \<in> set sources. set (yielded (snd s)))"
    using fetch_sources_props [of sources "{}"] by (simp_all add: fetch_all_def)
  have c: "\<forall>p \<in> set (fetch_all sources). count_list (fetch_all sources) p = 1"
    using d by (simp add: distinct_count_one)
  have "fetch_all (map (\<lambda>(name, r). (name, Run (yielded r) None))
                     (earlier @ (name, Run items (Some e)) # later))
        = fetch_all (map (\<lambda>(name, r). (name, Run (yielded r) None))
                     (earlier @ (name, Run items None) # later))"
    by simp
  then have r: "fetch_all (earlier @ (name, Run items (Some e)) # later)
       = fetch_all (earlier @ (name, Run items None) # later)"
    by (simp only: fetch_all_def fetch_sources_raised_ignored)
  show ?thesis
    using d s c r by blast
qed

theorem fetch_all_unique_witness:
  "fetch_all [(''First'', Run [''10.0.0.5:8080'', ''10.0.0.6:3128'', ''10.0.0.5:8080''] None),
              (''Second'', Run [''10.0.0.7:80''] (Some (OtherError ''bad item''))),
              (''Third'', Run [''10.0.0.5:8080'', ''10.0.0.8:80''] None)]
     = [''10.0.0.5:8080'', ''10.0.0.6:3128'', ''10.0.0.7:80'', ''10.0.0.8:80'']
   \<and> ''10.0.0.5:8080''
        \<in> set (fetch_all
              [(''First'', Run [''10.0.0.5:8080'', ''10.0.0.6:3128'', ''10.0.0.5:8080''] None),
               (''Second'', Run [''10.0.0.7:80''] (Some (OtherError ''bad item''))),
               (''Third'', Run [''10.0.0.5:8080'', ''10.0.0.8:80''] None)])
   \<and> count_list
        (fetch_all
           [(''First'', Run [''10.0.0.5:8080'', ''10.0.0.6:3128'', ''10.0.0.5:8080''] None),
            (''Second'', Run [''10.0.0.7:80''] (Some (OtherError ''bad item''))),
            (''Third'', Run [''10.0.0.5:8080'', ''10.0.0.8:80''] None)])
        ''10.0.0.5:8080'' = 1"
proof -
  have v: "fetch_all [(''First'', Run [''10.0.0.5:8080'', ''10.0.0.6:3128'', ''10.0.0.5:8080''] None),
              (''Second'', Run [''10.0.0.7:80''] (Some (OtherError ''bad item''))),
              (''Third'', Run [''10.0.0.5:8080'', ''10.0.0.8:80''] None)]
     = [''10.0.0.5:8080'', ''10.0.0.6:3128'', ''10.0.0.7:80'', ''10.0.0.8:80'']"
    by (simp add: fetch_all_def)
  have m: "''10.0.0.5:8080''
        \<in> set (fetch_all
              [(''First'', Run [''10.0.0.5:8080'', ''10.0.0.6:3128'', ''10.0.0.5:8080''] None),
               (''Second'', Run [''10.0.0.7:80''] (Some (OtherError ''bad item''))),
               (''Third'', Run [''10.0.0.5:8080'', ''10.0.0.8:80''] None)])"
    by (simp add: v)
  have "count_list
        (fetch_all
           [(''First'', Run [''10.0.0.5:8080'', ''10.0.0.6:3128'', ''10.0.0.5:8080''] None),
            (''Second'', Run [''10.0.0.7:80''] (Some (OtherError ''bad item''))),
            (''Third'', Run [''10.0.0.5:8080'', ''10.0.0.8:80''] None)])
        ''10.0.0.5:8080'' = 1"
    using fetch_all_unique
      [of "[(''First'', Run [''10.0.0.5:8080'', ''10.0.0.6:3128'', ''10.0.0.5:8080''] None),
            (''Second'', Run [''10.0.0.7:80''] (Some (OtherError ''bad item''))),
            (''Third'', Run [''10.0.0.5:8080'', ''10.0.0.8:80''] None)]"] m
    by blast
  then show ?thesis
    using v m by blast
qed

end
